theory Spec2Isabelle
  imports Complex_Main "HOL-Library.Multiset"
begin

section \<open>Configuration (config.py)\<close>

text \<open>
  Python integers are modelled as \<open>int\<close>. The scores of the traders and of the ledger
  are modelled as \<open>real\<close>: the statements about them are about the exact arithmetic of
  the formulas. Where the code prints a float, the binary rounding is modelled (see the
  section on binary floating point).
\<close>

definition TOP_GAINERS_LIMIT :: nat where
  "TOP_GAINERS_LIMIT = 2500"

definition BOT_TRANSACTION_THRESHOLD :: int where
  "BOT_TRANSACTION_THRESHOLD = 350"

definition SIGNIFICANT_HOLDING_THRESHOLD :: real where
  "SIGNIFICANT_HOLDING_THRESHOLD = 9000"

definition MIN_SIGNIFICANT_HOLDINGS :: nat where
  "MIN_SIGNIFICANT_HOLDINGS = 2"

section \<open>Trader scoring (wallet_holdings_analyzer.py, calculate_trading_score)\<close>

text \<open>
  A raw trader record is the dictionary the upstream API returns. A key may be missing:
  \<open>trader_data.get('pnl', 0)\<close> then yields the default, and \<open>trader_data.get('address')\<close>
  yields Python's \<open>None\<close>.
\<close>

record trader_data =
  td_address :: "string option"
  td_pnl :: "real option"
  td_volume :: "real option"
  td_trade_count :: "int option"

record TraderMetrics =
  address :: "string option"
  pnl :: real
  volume :: real
  trade_count :: int
  efficiency_score :: real
  trading_score :: real
  top_holdings :: "string list option"

definition dict_get :: "'a option \<Rightarrow> 'a \<Rightarrow> 'a" where
  "dict_get field dflt = (case field of None \<Rightarrow> dflt | Some v \<Rightarrow> v)"

text \<open>The three components and the blend are local variables of the source function.\<close>

definition efficiency_score_of :: "real \<Rightarrow> real \<Rightarrow> real" where
  "efficiency_score_of p v = (if v > 0 then min 100 ((p / v) * 200) else 0)"

definition pnl_score_of :: "real \<Rightarrow> real" where
  "pnl_score_of p = min 100 (p / 100000)"

definition activity_score_of :: "real \<Rightarrow> int \<Rightarrow> real" where
  "activity_score_of p tc =
     (let profit_per_trade = p / real_of_int tc
      in min 100 (max 0 ((profit_per_trade - 1000) / 19000 * 100)))"

definition trading_score_of :: "real \<Rightarrow> real \<Rightarrow> int \<Rightarrow> real" where
  "trading_score_of p v tc =
     efficiency_score_of p v * 0.33 + pnl_score_of p * 0.33 + activity_score_of p tc * 0.34"

definition calculate_trading_score :: "trader_data \<Rightarrow> TraderMetrics option" where
  "calculate_trading_score td =
     (let p = dict_get (td_pnl td) 0;
          v = dict_get (td_volume td) 0;
          tc = dict_get (td_trade_count td) 0
      in if tc > BOT_TRANSACTION_THRESHOLD \<or> tc = 0 then None
         else Some \<lparr> address = td_address td, pnl = p, volume = v, trade_count = tc,
                      efficiency_score = efficiency_score_of p v,
                      trading_score = trading_score_of p v tc,
                      top_holdings = None \<rparr>)"

section \<open>Snapshot building (wallet_holdings_analyzer.py, main, steps 2 and 3)\<close>

text \<open>
  Step 2 of \<open>main\<close>: the loop over the fetched records with its set \<open>seen_addresses\<close>
  and its list \<open>processed_traders\<close>. A dataclass instance is truthy, so \<open>if metrics\<close>
  tests for \<open>None\<close> only.
\<close>

fun process_loop ::
  "trader_data list \<Rightarrow> string option set \<Rightarrow> TraderMetrics list
     \<Rightarrow> string option set \<times> TraderMetrics list" where
  "process_loop [] seen_addresses processed_traders = (seen_addresses, processed_traders)"
| "process_loop (trader # traders) seen_addresses processed_traders =
     (case calculate_trading_score trader of
        None \<Rightarrow> process_loop traders seen_addresses processed_traders
      | Some metrics \<Rightarrow>
          if address metrics \<notin> seen_addresses
          then process_loop traders (insert (address metrics) seen_addresses)
                 (processed_traders @ [metrics])
          else process_loop traders seen_addresses processed_traders)"

definition process_traders :: "trader_data list \<Rightarrow> TraderMetrics list" where
  "process_traders traders = snd (process_loop traders {} [])"

text \<open>
  Python's \<open>list.sort(key=f, reverse=True)\<close> is stable: the result is descending by key
  and elements with equal keys keep their original order. That is the stable ascending
  sort on the negated key.
\<close>

definition sort_reverse :: "('a \<Rightarrow> real) \<Rightarrow> 'a list \<Rightarrow> 'a list" where
  "sort_reverse f xs = sort_key (\<lambda>x. - f x) xs"

definition sort_by_trading_score :: "TraderMetrics list \<Rightarrow> TraderMetrics list" where
  "sort_by_trading_score processed_traders = sort_reverse trading_score processed_traders"

definition snapshot_order :: "trader_data list \<Rightarrow> TraderMetrics list" where
  "snapshot_order traders = sort_by_trading_score (process_traders traders)"

text \<open>
  \<open>accepted_with a t\<close>: the scorer accepts the raw record \<open>t\<close> and its address is \<open>a\<close>.
\<close>

definition accepted_with :: "string option \<Rightarrow> trader_data \<Rightarrow> bool" where
  "accepted_with a t =
     (case calculate_trading_score t of None \<Rightarrow> False | Some m \<Rightarrow> address m = a)"

section \<open>Binary floating point (Python's float)\<close>

text \<open>
  The scores and the ledger are modelled in exact real arithmetic. The holdings format
  prints a float, and there the binary rounding decides the digits, so the rounding of
  Python's float (IEEE 754 binary64, round to nearest, ties to even) is modelled:
  \<open>to_double x\<close> is the double nearest to the real \<open>x\<close>. The exponent of \<open>x\<close> is found by
  halving or doubling until the value lies in [1, 2); a double has 53 significant bits,
  and below \<open>2 ^ (-1022)\<close> the spacing stays that of the subnormal numbers. Values of
  \<open>2 ^ 1024\<close> and more have no double and are outside the model.
\<close>

definition round_half_even :: "real \<Rightarrow> int" where
  "round_half_even y =
     (let n = \<lfloor>y\<rfloor>; r = y - of_int n
      in if r < 1 / 2 then n else if r > 1 / 2 then n + 1 else if even n then n else n + 1)"

function exponent_up :: "real \<Rightarrow> int" where
  "exponent_up x = (if 2 \<le> x then exponent_up (x / 2) + 1 else 0)"
  by pat_completeness auto
termination
proof (relation "measure (\<lambda>x. nat \<lfloor>x\<rfloor>)")
  show "wf (measure (\<lambda>x. nat \<lfloor>x\<rfloor>))" by simp
next
  fix x :: real assume "2 \<le> x"
  then have "\<lfloor>x / 2\<rfloor> < \<lfloor>x\<rfloor>" by linarith
  moreover from \<open>2 \<le> x\<close> have "0 < \<lfloor>x\<rfloor>" by linarith
  ultimately show "(x / 2, x) \<in> measure (\<lambda>x. nat \<lfloor>x\<rfloor>)" by simp
qed

function exponent_down :: "real \<Rightarrow> int" where
  "exponent_down x = (if 0 < x \<and> x < 1 then exponent_down (x * 2) - 1 else 0)"
  by pat_completeness auto
termination
proof (relation "measure (\<lambda>x. nat \<lfloor>1 / x\<rfloor>)")
  show "wf (measure (\<lambda>x. nat \<lfloor>1 / x\<rfloor>))" by simp
next
  fix x :: real assume a: "0 < x \<and> x < 1"
  define y where "y = 1 / x"
  from a have "1 < y" by (simp add: y_def)
  then have pos: "0 < \<lfloor>y\<rfloor>" by linarith
  have "y < of_int \<lfloor>y\<rfloor> + 1" by linarith
  moreover from pos have "1 \<le> real_of_int \<lfloor>y\<rfloor>" by simp
  ultimately have "y / 2 < of_int \<lfloor>y\<rfloor>" by linarith
  then have lt: "\<lfloor>y / 2\<rfloor> < \<lfloor>y\<rfloor>" by (simp only: floor_less_iff)
  have eq: "1 / (x * 2) = y / 2" by (simp add: y_def)
  from lt pos have "nat \<lfloor>y / 2\<rfloor> < nat \<lfloor>y\<rfloor>" by (simp only: zless_nat_conj)
  then have "nat \<lfloor>1 / (x * 2)\<rfloor> < nat \<lfloor>1 / x\<rfloor>" by (simp only: eq) (simp only: y_def)
  then show "(x * 2, x) \<in> measure (\<lambda>x. nat \<lfloor>1 / x\<rfloor>)"
    by (simp only: in_measure)
qed

declare exponent_up.simps [simp del] exponent_down.simps [simp del]

definition pow2 :: "int \<Rightarrow> real" where
  "pow2 e = (if 0 \<le> e then 2 ^ nat e else 1 / 2 ^ nat (- e))"

definition binary_exponent :: "real \<Rightarrow> int" where
  "binary_exponent x = (if 1 \<le> \<bar>x\<bar> then exponent_up \<bar>x\<bar> else exponent_down \<bar>x\<bar>)"

definition ulp :: "real \<Rightarrow> real" where
  "ulp x = pow2 (max (binary_exponent x) (- 1022) - 52)"

definition to_double :: "real \<Rightarrow> real" where
  "to_double x = (if x = 0 then 0 else of_int (round_half_even (x / ulp x)) * ulp x)"

text \<open>A number that a Python float holds exactly; every integer up to \<open>2 ^ 53\<close> is one.\<close>

definition is_double :: "real \<Rightarrow> bool" where
  "is_double x = (to_double x = x)"

section \<open>Holdings filter and format (get_wallet_holdings, lines 151 to 164)\<close>

record holding =
  h_symbol :: "string option"
  h_valueUsd :: "real option"

text \<open>
  A raw holding is a dictionary whose keys \<open>symbol\<close> and \<open>valueUsd\<close> may be missing; a
  present \<open>valueUsd\<close> is a Python number (an int or a float) and a present \<open>symbol\<close> a
  string. The two definitions below are the truthiness of \<open>h.get("symbol")\<close> and of
  \<open>h.get("valueUsd")\<close>. The filter compares the number itself with the threshold; the
  sort key and the format convert it with \<open>float\<close>.
\<close>

definition truthy_str :: "string option \<Rightarrow> bool" where
  "truthy_str s = (case s of None \<Rightarrow> False | Some v \<Rightarrow> v \<noteq> [])"

definition truthy_num :: "real option \<Rightarrow> bool" where
  "truthy_num x = (case x of None \<Rightarrow> False | Some v \<Rightarrow> v \<noteq> 0)"

definition is_significant :: "holding \<Rightarrow> bool" where
  "is_significant h =
     (dict_get (h_valueUsd h) 0 \<ge> SIGNIFICANT_HOLDING_THRESHOLD
      \<and> truthy_str (h_symbol h) \<and> truthy_num (h_valueUsd h)
      \<and> h_symbol h \<notin> set [Some ''USDC'', Some ''SOL''])"

definition significant_holdings :: "holding list \<Rightarrow> holding list" where
  "significant_holdings holdings =
     sort_reverse (\<lambda>x. to_double (dict_get (h_valueUsd x) 0)) (filter is_significant holdings)"

text \<open>
  The format specification \<open>:.2f\<close> prints the decimal expansion of the float rounded to
  the nearest hundredth, a tie going to the even hundredth; a negative value keeps its
  sign. \<open>hundredths\<close> is the number of hundredths printed.
\<close>

definition hundredths :: "real \<Rightarrow> int" where
  "hundredths x = round_half_even (x * 100)"

definition digit_char :: "nat \<Rightarrow> char" where
  "digit_char d = ''0123456789'' ! (d mod 10)"

fun str_of_nat :: "nat \<Rightarrow> string" where
  "str_of_nat n =
     (if n < 10 then [digit_char n] else str_of_nat (n div 10) @ [digit_char (n mod 10)])"

declare str_of_nat.simps [simp del]

definition format_2f :: "real \<Rightarrow> string" where
  "format_2f x =
     (let c = nat (hundredths \<bar>x\<bar>)
      in (if x < 0 then ''-'' else [])
         @ str_of_nat (c div 100) @ ''.''
         @ [digit_char (c div 10 mod 10), digit_char (c mod 10)])"

text \<open>
  \<open>float(holding.get("valueUsd", 0)) / 1_000_000\<close>: the conversion to a float and the
  float division each round to the nearest double; the quotient that \<open>:.2f\<close> formats is
  that double, not the exact quotient.
\<close>

definition format_holding :: "holding \<Rightarrow> string" where
  "format_holding holding =
     (let value_millions = to_double (to_double (dict_get (h_valueUsd holding) 0) / 1000000)
      in dict_get (h_symbol holding) ''None'' @ '' '' @ format_2f value_millions @ ''m'')"

definition formatted_holdings :: "holding list \<Rightarrow> string list" where
  "formatted_holdings holdings = map format_holding (significant_holdings holdings)"

text \<open>
  Reading a printed number back: the value of a digit, of a string of digits, and the
  test for a digit. They serve to say what a formatted string denotes.
\<close>

definition digit_value :: "char \<Rightarrow> nat" where
  "digit_value c = length (takeWhile (\<lambda>d. d \<noteq> c) ''0123456789'') mod 10"

definition is_digit :: "char \<Rightarrow> bool" where
  "is_digit c = (c \<in> set ''0123456789'')"

definition nat_of_digits :: "string \<Rightarrow> nat" where
  "nat_of_digits s = foldl (\<lambda>a c. a * 10 + digit_value c) 0 s"

section \<open>The upstream API and the analyzer's state (class WalletAnalyzer)\<close>

text \<open>
  One HTTP exchange either raises (\<open>requests.get\<close> or \<open>response.json()\<close> throws) or
  yields a status code and a body. A parsed body carries the truthiness of its
  \<open>success\<close> flag and its \<open>data.items\<close> array (\<open>[]\<close> when the path is missing).
\<close>

datatype exc = Timeout | RequestException | OtherException

datatype 'a body = Malformed exc | Json bool "'a list"

datatype 'a response = Raises exc | Http nat "'a body"

text \<open>
  The upstream is a parameter: the answer to the \<open>n\<close>-th request the process issues,
  given what is asked for (the page offset, the wallet).
\<close>

type_synonym traders_api = "nat \<Rightarrow> nat \<Rightarrow> trader_data response"
type_synonym holdings_api = "nat \<Rightarrow> string \<Rightarrow> holding response"

datatype event =
    Get_traders nat nat
  | Get_holdings string
  | Sleep real
  | Max_retries_offset nat
  | Max_retries_wallet string

text \<open>
  The mutable fields of the analyzer that the fetch loops read or write, the number of
  requests issued so far, and the trace of requests, of sleeps of
  \<open>_handle_rate_limit\<close> and of the exception handlers, and of the two
  "Max retries reached" log lines. The pacing sleep of \<open>_rate_limit\<close> depends on the
  wall clock only and is not part of the trace.
\<close>

record analyzer =
  min_call_interval :: real
  backoff_time :: real
  holdings_cache :: "string \<rightharpoonup> string list"
  calls :: nat
  events :: "event list"

definition max_retries :: nat where
  "max_retries = 3"

definition new_analyzer :: analyzer where
  "new_analyzer =
     \<lparr> min_call_interval = 0.5, backoff_time = 0.5, holdings_cache = Map.empty,
       calls = 0, events = [] \<rparr>"

definition emit :: "event \<Rightarrow> analyzer \<Rightarrow> analyzer" where
  "emit e self = self\<lparr> events := events self @ [e] \<rparr>"

definition handle_rate_limit :: "analyzer \<Rightarrow> analyzer" where
  "handle_rate_limit self =
     (let self1 = self\<lparr> backoff_time := backoff_time self * 2 \<rparr>
      in emit (Sleep (backoff_time self1)) self1)"

definition reset_backoff :: "analyzer \<Rightarrow> analyzer" where
  "reset_backoff self = self\<lparr> backoff_time := min_call_interval self \<rparr>"

definition issue :: "event \<Rightarrow> analyzer \<Rightarrow> analyzer" where
  "issue e self = emit e (self\<lparr> calls := calls self + 1 \<rparr>)"

section \<open>Fetching the trader list (get_top_traders)\<close>

text \<open>
  The \<open>while retry_count < self.max_retries\<close> loop for one offset. It returns the final
  \<open>retry_count\<close>, the analyzer and the list \<open>traders\<close>. Every \<open>break\<close> of the source
  leaves this loop only.
\<close>

function traders_retry_loop ::
  "traders_api \<Rightarrow> nat \<Rightarrow> nat \<Rightarrow> analyzer \<Rightarrow> trader_data list
     \<Rightarrow> nat \<times> analyzer \<times> trader_data list" where
  "traders_retry_loop api offset retry_count self traders =
     (if retry_count < max_retries then
        (let self1 = issue (Get_traders offset 10) self
         in case api (calls self) offset of
              Raises e \<Rightarrow>
                traders_retry_loop api offset (retry_count + 1) (emit (Sleep 1) self1) traders
            | Http status_code b \<Rightarrow>
                if status_code = 429 then
                  traders_retry_loop api offset (retry_count + 1) (handle_rate_limit self1)
                    traders
                else if status_code \<noteq> 200 then (retry_count, self1, traders)
                else
                  (case b of
                     Malformed e \<Rightarrow>
                       traders_retry_loop api offset (retry_count + 1) (emit (Sleep 1) self1)
                         traders
                   | Json success batch \<Rightarrow>
                       if \<not> success then (retry_count, self1, traders)
                       else if batch = [] then (retry_count, self1, traders)
                       else (retry_count, reset_backoff self1, traders @ batch)))
      else (retry_count, self, traders))"
  by pat_completeness auto
termination
  by (relation "measure (\<lambda>(api, offset, retry_count, self, traders). max_retries - retry_count)")
    auto

declare traders_retry_loop.simps [simp del]

text \<open>\<open>range(0, limit, 10)\<close>.\<close>

definition page_offsets :: "nat \<Rightarrow> nat list" where
  "page_offsets limit = map (\<lambda>k. k * 10) [0 ..< (limit + 9) div 10]"

definition fetch_offset ::
  "traders_api \<Rightarrow> nat \<Rightarrow> analyzer \<times> trader_data list \<Rightarrow> analyzer \<times> trader_data list" where
  "fetch_offset api offset st =
     (case traders_retry_loop api offset 0 (fst st) (snd st) of
        (retry_count, self1, traders) \<Rightarrow>
          if retry_count = max_retries then (emit (Max_retries_offset offset) self1, traders)
          else (self1, traders))"

definition get_top_traders ::
  "traders_api \<Rightarrow> nat \<Rightarrow> analyzer \<Rightarrow> analyzer \<times> trader_data list" where
  "get_top_traders api limit self = fold (fetch_offset api) (page_offsets limit) (self, [])"

text \<open>The offsets requested, in order, as the trace records them.\<close>

fun requested_offsets :: "event list \<Rightarrow> nat list" where
  "requested_offsets [] = []"
| "requested_offsets (Get_traders offset page_size # es) = offset # requested_offsets es"
| "requested_offsets (e # es) = requested_offsets es"

section \<open>Fetching a wallet's holdings (get_wallet_holdings)\<close>

text \<open>
  The retry loop of \<open>get_wallet_holdings\<close>. Its middle result is \<open>Some v\<close> when a
  \<open>return v\<close> inside the loop ended the call, and \<open>None\<close> when the loop was left by
  \<open>break\<close> or by its condition.
\<close>

function holdings_retry_loop ::
  "holdings_api \<Rightarrow> string \<Rightarrow> nat \<Rightarrow> analyzer \<Rightarrow> nat \<times> string list option \<times> analyzer" where
  "holdings_retry_loop api wallet retry_count self =
     (if retry_count < max_retries then
        (let self1 = issue (Get_holdings wallet) self
         in case api (calls self) wallet of
              Raises e \<Rightarrow>
                holdings_retry_loop api wallet (retry_count + 1) (emit (Sleep 1) self1)
            | Http status_code b \<Rightarrow>
                if status_code = 429 then
                  holdings_retry_loop api wallet (retry_count + 1) (handle_rate_limit self1)
                else if status_code \<noteq> 200 then (retry_count, None, self1)
                else
                  (case b of
                     Malformed e \<Rightarrow>
                       holdings_retry_loop api wallet (retry_count + 1) (emit (Sleep 1) self1)
                   | Json success holdings \<Rightarrow>
                       if \<not> success then (retry_count, None, self1)
                       else if holdings = [] then
                         (retry_count, Some [],
                          self1\<lparr> holdings_cache := (holdings_cache self1)(wallet \<mapsto> []) \<rparr>)
                       else
                         (let formatted = formatted_holdings holdings
                          in (retry_count, Some formatted,
                              reset_backoff
                                (self1\<lparr> holdings_cache :=
                                          (holdings_cache self1)(wallet \<mapsto> formatted) \<rparr>)))))
      else (retry_count, None, self))"
  by pat_completeness auto
termination
  by (relation "measure (\<lambda>(api, wallet, retry_count, self). max_retries - retry_count)") auto

declare holdings_retry_loop.simps [simp del]

text \<open>
  The whole call. Its result is \<open>Some v\<close> for a returned list and \<open>None\<close> for Python's
  \<open>None\<close>, which the function returns when it falls off its end: the loop was left by
  \<open>break\<close> before the retry counter reached \<open>max_retries\<close>.
\<close>

definition get_wallet_holdings ::
  "holdings_api \<Rightarrow> string \<Rightarrow> analyzer \<Rightarrow> string list option \<times> analyzer" where
  "get_wallet_holdings api wallet self =
     (case holdings_cache self wallet of
        Some cached \<Rightarrow> (Some cached, self)
      | None \<Rightarrow>
          (case holdings_retry_loop api wallet 0 self of
             (retry_count, Some returned, self1) \<Rightarrow> (Some returned, self1)
           | (retry_count, None, self1) \<Rightarrow>
               if retry_count = max_retries
               then (Some [], emit (Max_retries_wallet wallet) self1)
               else (None, self1)))"

text \<open>
  A response that sends the loop round again: the exception handlers and the 429 branch
  both add one to \<open>retry_count\<close>.
\<close>

definition consumes_retry :: "'a response \<Rightarrow> bool" where
  "consumes_retry r =
     (case r of
        Raises e \<Rightarrow> True
      | Http status_code b \<Rightarrow>
          status_code = 429 \<or> (status_code = 200 \<and> (case b of Malformed e \<Rightarrow> True | Json s xs \<Rightarrow> False)))"

definition raises_exception :: "'a response \<Rightarrow> bool" where
  "raises_exception r =
     (case r of
        Raises e \<Rightarrow> True
      | Http status_code b \<Rightarrow>
          status_code = 200 \<and> (case b of Malformed e \<Rightarrow> True | Json s xs \<Rightarrow> False))"

definition status_of :: "'a response \<Rightarrow> nat option" where
  "status_of r = (case r of Raises e \<Rightarrow> None | Http status_code b \<Rightarrow> Some status_code)"

section \<open>Ledger reconciliation (wallet_score_manager.py, update_scores)\<close>

text \<open>
  The historical data frame is a list of rows in frame order; the analysis frame
  contributes its columns \<open>Wallet\<close> and \<open>Trading_Score\<close>. The date string of the run is a
  parameter.
\<close>

record ledger_row =
  Wallet_Address :: string
  composite_score :: real
  last_seen :: string
  appearances :: int

record analysis_row =
  Wallet :: string
  Trading_Score :: real

text \<open>
  One iteration of the loop over \<open>current_df\<close>. The test
  \<open>wallet in historical_df['Wallet_Address'].values\<close> succeeds exactly when a first
  matching row exists; \<open>.iloc[0]\<close> reads that row, and the two \<open>.loc[mask, column]\<close>
  assignments write every row the mask selects.
\<close>

definition reconcile_row :: "string \<Rightarrow> analysis_row \<Rightarrow> ledger_row list \<Rightarrow> ledger_row list" where
  "reconcile_row today row historical_df =
     (let wallet = Wallet row; current_score = Trading_Score row
      in case find (\<lambda>r. Wallet_Address r = wallet) historical_df of
           Some first_match \<Rightarrow>
             (let hist_score = composite_score first_match;
                  appearances1 = appearances first_match + 1;
                  new_score = (hist_score * 0.7) + (current_score * 0.3)
              in map (\<lambda>r. if Wallet_Address r = wallet
                            then r\<lparr> composite_score := new_score, appearances := appearances1 \<rparr>
                            else r)
                   historical_df)
         | None \<Rightarrow>
             historical_df @
               [\<lparr> Wallet_Address = wallet, composite_score = current_score,
                   last_seen = today, appearances = 1 \<rparr>])"

definition update_last_seen :: "string \<Rightarrow> string list \<Rightarrow> ledger_row list \<Rightarrow> ledger_row list" where
  "update_last_seen today current_wallets historical_df =
     map (\<lambda>r. if Wallet_Address r \<in> set current_wallets then r\<lparr> last_seen := today \<rparr> else r)
       historical_df"

text \<open>
  \<open>sort_values('composite_score', ascending=False)\<close>. The order pandas gives to rows of
  equal score is not fixed by its default algorithm; the model takes the stable order, and
  nothing proved below depends on the order of ties.
\<close>

definition sort_values_desc :: "ledger_row list \<Rightarrow> ledger_row list" where
  "sort_values_desc historical_df = sort_reverse composite_score historical_df"

definition update_scores ::
  "string \<Rightarrow> ledger_row list \<Rightarrow> analysis_row list \<Rightarrow> ledger_row list" where
  "update_scores today historical_df current_df =
     sort_values_desc
       (update_last_seen today (map Wallet current_df)
          (fold (reconcile_row today) current_df historical_df))"

definition ledger_lookup :: "string \<Rightarrow> ledger_row list \<Rightarrow> ledger_row option" where
  "ledger_lookup wallet historical_df = find (\<lambda>r. Wallet_Address r = wallet) historical_df"

definition untouched_by :: "analysis_row list \<Rightarrow> ledger_row \<Rightarrow> bool" where
  "untouched_by current_df r = (Wallet_Address r \<notin> set (map Wallet current_df))"

section \<open>Example upstream behaviours\<close>

text \<open>
  \<open>scripted rs\<close> answers the \<open>n\<close>-th request with the \<open>n\<close>-th response of the list and
  with a connection error once the list is used up; the others give the same answer to
  every request.
\<close>

definition scripted :: "'a response list \<Rightarrow> nat \<Rightarrow> 'k \<Rightarrow> 'a response" where
  "scripted rs n k = (if n < length rs then rs ! n else Raises RequestException)"

definition always_429 :: "nat \<Rightarrow> 'k \<Rightarrow> 'a response" where
  "always_429 n k = Http 429 (Json False [])"

definition always_500 :: "nat \<Rightarrow> 'k \<Rightarrow> 'a response" where
  "always_500 n k = Http 500 (Json False [])"

definition always_timeout :: "nat \<Rightarrow> 'k \<Rightarrow> 'a response" where
  "always_timeout n k = Raises Timeout"

definition always_empty_page :: "nat \<Rightarrow> 'k \<Rightarrow> 'a response" where
  "always_empty_page n k = Http 200 (Json True [])"

section \<open>Properties of the scorer\<close>

lemma efficiency_score_of_le: "efficiency_score_of p v \<le> 100"
  by (simp add: efficiency_score_of_def)

lemma efficiency_score_of_ge: "0 \<le> p \<Longrightarrow> 0 \<le> efficiency_score_of p v"
  by (simp add: efficiency_score_of_def)

lemma pnl_score_of_le: "pnl_score_of p \<le> 100"
  by (simp add: pnl_score_of_def)

lemma pnl_score_of_ge: "0 \<le> p \<Longrightarrow> 0 \<le> pnl_score_of p"
  by (simp add: pnl_score_of_def)

lemma activity_score_of_bounds: "0 \<le> activity_score_of p tc \<and> activity_score_of p tc \<le> 100"
  by (simp add: activity_score_of_def Let_def)

lemma trading_score_of_le: "trading_score_of p v tc \<le> 100"
  using efficiency_score_of_le [of p v] pnl_score_of_le [of p] activity_score_of_bounds [of p tc]
  by (simp add: trading_score_of_def)

lemma trading_score_of_ge: "0 \<le> p \<Longrightarrow> 0 \<le> trading_score_of p v tc"
  using efficiency_score_of_ge [of p v] pnl_score_of_ge [of p] activity_score_of_bounds [of p tc]
  by (simp add: trading_score_of_def)

text \<open>
  Claim C1, as the code has it. For every raw record whose trade count lies in
  1..BOT_TRANSACTION_THRESHOLD the scorer returns metrics; the efficiency score and the
  pnl score are at most 100, the activity score lies in [0,100], and the trading score is
  the blend 0.33, 0.33, 0.34 of the three and is at most 100. Only the activity score is
  cut off at 0: the other two and the blend are at least 0 when the pnl is at least 0.
\<close>

theorem scores_bounded_above_and_blended:
  assumes "1 \<le> dict_get (td_trade_count td) 0"
    and "dict_get (td_trade_count td) 0 \<le> BOT_TRANSACTION_THRESHOLD"
  shows "\<exists>m. calculate_trading_score td = Some m
      \<and> efficiency_score m = efficiency_score_of (pnl m) (volume m)
      \<and> trading_score m =
          efficiency_score m * 0.33 + pnl_score_of (pnl m) * 0.33
          + activity_score_of (pnl m) (trade_count m) * 0.34
      \<and> efficiency_score m \<le> 100
      \<and> pnl_score_of (pnl m) \<le> 100
      \<and> 0 \<le> activity_score_of (pnl m) (trade_count m)
      \<and> activity_score_of (pnl m) (trade_count m) \<le> 100
      \<and> trading_score m \<le> 100
      \<and> (0 \<le> pnl m \<longrightarrow>
            0 \<le> efficiency_score m \<and> 0 \<le> pnl_score_of (pnl m) \<and> 0 \<le> trading_score m)"
  using assms
  by (simp add: calculate_trading_score_def Let_def efficiency_score_of_le efficiency_score_of_ge
      pnl_score_of_le pnl_score_of_ge activity_score_of_bounds trading_score_of_le trading_score_of_ge)
    (simp add: trading_score_of_def)

text \<open>
  The theorem at a record with pnl 2000000, volume 4000000 and 100 trades: the three
  components are 100, 20 and 100, the trading score is 73.6.
\<close>

theorem scores_bounded_above_and_blended_witness:
  "1 \<le> dict_get (Some (100 :: int)) 0
   \<and> dict_get (Some 100) 0 \<le> BOT_TRANSACTION_THRESHOLD
   \<and> calculate_trading_score
        \<lparr> td_address = Some ''A'', td_pnl = Some 2000000, td_volume = Some 4000000,
          td_trade_count = Some 100 \<rparr>
      = Some \<lparr> address = Some ''A'', pnl = 2000000, volume = 4000000, trade_count = 100,
               efficiency_score = 100, trading_score = 73.6, top_holdings = None \<rparr>
   \<and> pnl_score_of 2000000 = 20
   \<and> activity_score_of 2000000 100 = 100
   \<and> (73.6 :: real) \<le> 100"
  using scores_bounded_above_and_blended
    [of "\<lparr> td_address = Some ''A'', td_pnl = Some 2000000, td_volume = Some 4000000,
           td_trade_count = Some 100 \<rparr>"]
  by (simp add: calculate_trading_score_def dict_get_def BOT_TRANSACTION_THRESHOLD_def
      trading_score_of_def efficiency_score_of_def pnl_score_of_def activity_score_of_def)

text \<open>
  Claim C1 as stated fails on a losing trader. With pnl -1000, volume 1000 and one trade
  the record is accepted, the efficiency score is -200, the pnl score -0.01 and the
  trading score -66.0033: none of them lies in [0,100].
\<close>

theorem losing_trader_scores_below_zero:
  "calculate_trading_score
     \<lparr> td_address = Some ''A'', td_pnl = Some (- 1000), td_volume = Some 1000,
       td_trade_count = Some 1 \<rparr>
   = Some \<lparr> address = Some ''A'', pnl = - 1000, volume = 1000, trade_count = 1,
            efficiency_score = - 200, trading_score = - 66.0033, top_holdings = None \<rparr>
   \<and> pnl_score_of (- 1000) = - 0.01
   \<and> \<not> (0 \<le> (- 200 :: real)) \<and> \<not> (0 \<le> (- 0.01 :: real)) \<and> \<not> (0 \<le> (- 66.0033 :: real))"
  by (simp add: calculate_trading_score_def dict_get_def BOT_TRANSACTION_THRESHOLD_def
      trading_score_of_def efficiency_score_of_def pnl_score_of_def activity_score_of_def)

section \<open>Properties of the stable descending sort\<close>

lemma sort_reverse_sorted: "sorted_wrt (\<lambda>a b. f a \<ge> f b) (sort_reverse f xs)"
proof -
  have "sorted (map (\<lambda>x. - f x) (sort_key (\<lambda>x. - f x) xs))"
    by (rule sorted_sort_key)
  then show ?thesis
    by (simp add: sort_reverse_def sorted_map)
qed

lemma sort_reverse_stable:
  "filter (\<lambda>x. f x = k) (sort_reverse f xs) = filter (\<lambda>x. f x = k) xs"
proof -
  have "filter (\<lambda>x. - f x = - k) (sort_key (\<lambda>x. - f x) xs) = filter (\<lambda>x. - f x = - k) xs"
    by (rule sort_key_stable)
  then show ?thesis
    by (simp add: sort_reverse_def)
qed

lemma mset_sort_reverse: "mset (sort_reverse f xs) = mset xs"
  by (simp add: sort_reverse_def)

lemma set_sort_reverse: "set (sort_reverse f xs) = set xs"
  by (simp add: sort_reverse_def)

text \<open>
  Claim C7. After the sort step the processed traders are non-increasing by trading
  score; for every score the traders with that score stand in the order they had before
  the sort; and the sort only rearranges the list.
\<close>

theorem sort_by_trading_score_descending_stable:
  "sorted_wrt (\<lambda>a b. trading_score a \<ge> trading_score b) (sort_by_trading_score xs)
   \<and> (\<forall>k. filter (\<lambda>m. trading_score m = k) (sort_by_trading_score xs)
          = filter (\<lambda>m. trading_score m = k) xs)
   \<and> mset (sort_by_trading_score xs) = mset xs"
  by (simp add: sort_by_trading_score_def sort_reverse_sorted sort_reverse_stable mset_sort_reverse)

section \<open>Properties of the deduplication loop\<close>

lemma process_loop_keeps: "set acc \<subseteq> set (snd (process_loop ts seen acc))"
proof (induction ts arbitrary: seen acc)
  case Nil
  show ?case by simp
next
  case (Cons t ts)
  show ?case
  proof (cases "calculate_trading_score t")
    case None
    with Cons.IH [of acc seen] show ?thesis by simp
  next
    case (Some m0)
    show ?thesis
    proof (cases "address m0 \<in> seen")
      case True
      with Some Cons.IH [of acc seen] show ?thesis by simp
    next
      case False
      with Some Cons.IH [of "acc @ [m0]" "insert (address m0) seen"] show ?thesis by simp
    qed
  qed
qed

lemma process_loop_distinct:
  "distinct (map address acc) \<Longrightarrow> address ` set acc \<subseteq> seen
     \<Longrightarrow> distinct (map address (snd (process_loop ts seen acc)))"
proof (induction ts arbitrary: seen acc)
  case Nil
  then show ?case by simp
next
  case (Cons t ts)
  show ?case
  proof (cases "calculate_trading_score t")
    case None
    with Cons.IH [OF Cons.prems] show ?thesis by simp
  next
    case (Some m0)
    show ?thesis
    proof (cases "address m0 \<in> seen")
      case True
      with Some Cons.IH [OF Cons.prems] show ?thesis by simp
    next
      case False
      have d: "distinct (map address (acc @ [m0]))"
        using Cons.prems False by auto
      have s: "address ` set (acc @ [m0]) \<subseteq> insert (address m0) seen"
        using Cons.prems by auto
      from Cons.IH [OF d s] Some False show ?thesis by simp
    qed
  qed
qed

lemma process_loop_first:
  "m \<in> set (snd (process_loop ts seen acc)) \<Longrightarrow> m \<notin> set acc
     \<Longrightarrow> address m \<notin> seen
         \<and> (\<exists>t. find (accepted_with (address m)) ts = Some t \<and> calculate_trading_score t = Some m)"
proof (induction ts arbitrary: seen acc)
  case Nil
  then show ?case by simp
next
  case (Cons t ts)
  show ?case
  proof (cases "calculate_trading_score t")
    case None
    with Cons.prems have "m \<in> set (snd (process_loop ts seen acc))" by simp
    from Cons.IH [OF this Cons.prems(2)] None show ?thesis
      by (simp add: accepted_with_def)
  next
    case (Some m0)
    show ?thesis
    proof (cases "address m0 \<in> seen")
      case True
      with Some Cons.prems have "m \<in> set (snd (process_loop ts seen acc))" by simp
      from Cons.IH [OF this Cons.prems(2)] Some True show ?thesis
        by (auto simp: accepted_with_def)
    next
      case False
      with Some Cons.prems
      have in_rec: "m \<in> set (snd (process_loop ts (insert (address m0) seen) (acc @ [m0])))"
        by simp
      show ?thesis
      proof (cases "m = m0")
        case True
        with Some False show ?thesis by (simp add: accepted_with_def)
      next
        case neq: False
        with Cons.prems(2) have "m \<notin> set (acc @ [m0])" by simp
        from Cons.IH [OF in_rec this] Some show ?thesis
          by (auto simp: accepted_with_def)
      qed
    qed
  qed
qed

lemma process_loop_complete:
  "t \<in> set ts \<Longrightarrow> calculate_trading_score t = Some m \<Longrightarrow> address ` set acc = seen
     \<Longrightarrow> address m \<in> address ` set (snd (process_loop ts seen acc))"
proof (induction ts arbitrary: seen acc)
  case Nil
  then show ?case by simp
next
  case (Cons u us)
  show ?case
  proof (cases "t = u")
    case True
    show ?thesis
    proof (cases "address m \<in> seen")
      case in_seen: True
      with Cons.prems(3) have "address m \<in> address ` set acc" by simp
      then show ?thesis using process_loop_keeps [of acc "u # us" seen] by blast
    next
      case False
      with True Cons.prems(2)
      have "snd (process_loop (u # us) seen acc)
            = snd (process_loop us (insert (address m) seen) (acc @ [m]))" by simp
      moreover have "m \<in> set (acc @ [m])" by simp
      ultimately show ?thesis
        using process_loop_keeps [of "acc @ [m]" us "insert (address m) seen"] by auto
    qed
  next
    case False
    with Cons.prems(1) have t_in: "t \<in> set us" by simp
    show ?thesis
    proof (cases "calculate_trading_score u")
      case None
      with Cons.IH [OF t_in Cons.prems(2) Cons.prems(3)] show ?thesis by simp
    next
      case (Some m0)
      show ?thesis
      proof (cases "address m0 \<in> seen")
        case True
        with Some Cons.IH [OF t_in Cons.prems(2) Cons.prems(3)] show ?thesis by simp
      next
        case nin: False
        have "address ` set (acc @ [m0]) = insert (address m0) seen"
          using Cons.prems(3) by auto
        from Cons.IH [OF t_in Cons.prems(2) this] Some nin show ?thesis by simp
      qed
    qed
  qed
qed

text \<open>
  Claim C6, as the code has it. For every list of raw records the processed list holds
  each address at most once; the metrics kept for an address are those of the first
  record, in fetch order, that carries this address and that the scorer accepts; and
  every address of an accepted record is in the processed list. A rejected record does
  not enter \<open>seen_addresses\<close>, so it does not count as the first occurrence.
\<close>

theorem process_traders_first_accepted_wins:
  "distinct (map address (process_traders traders))
   \<and> (\<forall>m \<in> set (process_traders traders).
        \<exists>t. find (accepted_with (address m)) traders = Some t
           \<and> calculate_trading_score t = Some m)
   \<and> (\<forall>t \<in> set traders. \<forall>m. calculate_trading_score t = Some m
        \<longrightarrow> address m \<in> address ` set (process_traders traders))"
proof (intro conjI ballI allI impI)
  show "distinct (map address (process_traders traders))"
    unfolding process_traders_def by (rule process_loop_distinct) simp_all
next
  fix m assume "m \<in> set (process_traders traders)"
  then have "m \<in> set (snd (process_loop traders {} []))" by (simp add: process_traders_def)
  from process_loop_first [OF this] show
    "\<exists>t. find (accepted_with (address m)) traders = Some t \<and> calculate_trading_score t = Some m"
    by simp
next
  fix t m assume "t \<in> set traders" "calculate_trading_score t = Some m"
  then show "address m \<in> address ` set (process_traders traders)"
    unfolding process_traders_def by (rule process_loop_complete) simp
qed

lemmas score_defs = calculate_trading_score_def dict_get_def BOT_TRANSACTION_THRESHOLD_def
  trading_score_of_def efficiency_score_of_def pnl_score_of_def activity_score_of_def

text \<open>
  The theorem at three records A, B, A, all accepted: the processed list is the metrics
  of the first A and of B, and the first accepted record with address A is the first one.
\<close>

theorem process_traders_first_accepted_wins_witness:
  "process_traders
     [\<lparr> td_address = Some ''A'', td_pnl = Some 2000000, td_volume = Some 4000000,
        td_trade_count = Some 100 \<rparr>,
      \<lparr> td_address = Some ''B'', td_pnl = Some 0, td_volume = Some 0, td_trade_count = Some 7 \<rparr>,
      \<lparr> td_address = Some ''A'', td_pnl = Some 0, td_volume = Some 0, td_trade_count = Some 1 \<rparr>]
   = [\<lparr> address = Some ''A'', pnl = 2000000, volume = 4000000, trade_count = 100,
        efficiency_score = 100, trading_score = 73.6, top_holdings = None \<rparr>,
      \<lparr> address = Some ''B'', pnl = 0, volume = 0, trade_count = 7,
        efficiency_score = 0, trading_score = 0, top_holdings = None \<rparr>]
   \<and> distinct (map address (process_traders
        [\<lparr> td_address = Some ''A'', td_pnl = Some 2000000, td_volume = Some 4000000,
           td_trade_count = Some 100 \<rparr>,
         \<lparr> td_address = Some ''B'', td_pnl = Some 0, td_volume = Some 0,
           td_trade_count = Some 7 \<rparr>,
         \<lparr> td_address = Some ''A'', td_pnl = Some 0, td_volume = Some 0,
           td_trade_count = Some 1 \<rparr>]))
   \<and> find (accepted_with (Some ''A''))
        [\<lparr> td_address = Some ''A'', td_pnl = Some 2000000, td_volume = Some 4000000,
           td_trade_count = Some 100 \<rparr>,
         \<lparr> td_address = Some ''B'', td_pnl = Some 0, td_volume = Some 0,
           td_trade_count = Some 7 \<rparr>,
         \<lparr> td_address = Some ''A'', td_pnl = Some 0, td_volume = Some 0,
           td_trade_count = Some 1 \<rparr>]
      = Some \<lparr> td_address = Some ''A'', td_pnl = Some 2000000, td_volume = Some 4000000,
               td_trade_count = Some 100 \<rparr>"
  using process_traders_first_accepted_wins [of
     "[\<lparr> td_address = Some ''A'', td_pnl = Some 2000000, td_volume = Some 4000000,
         td_trade_count = Some 100 \<rparr>,
       \<lparr> td_address = Some ''B'', td_pnl = Some 0, td_volume = Some 0, td_trade_count = Some 7 \<rparr>,
       \<lparr> td_address = Some ''A'', td_pnl = Some 0, td_volume = Some 0,
         td_trade_count = Some 1 \<rparr>]"]
  by (simp add: process_traders_def accepted_with_def score_defs)

text \<open>
  Claim C6 as stated fails when the first occurrence of an address is a record the scorer
  rejects. Of two records with address A, the first with no trades and the second with
  100 trades, the first yields no metrics and the later one is kept, not discarded.
\<close>

theorem rejected_first_occurrence_later_kept:
  "process_traders
     [\<lparr> td_address = Some ''A'', td_pnl = Some 5, td_volume = Some 10, td_trade_count = Some 0 \<rparr>,
      \<lparr> td_address = Some ''A'', td_pnl = Some 2000000, td_volume = Some 4000000,
        td_trade_count = Some 100 \<rparr>]
   = [\<lparr> address = Some ''A'', pnl = 2000000, volume = 4000000, trade_count = 100,
        efficiency_score = 100, trading_score = 73.6, top_holdings = None \<rparr>]
   \<and> calculate_trading_score
        \<lparr> td_address = Some ''A'', td_pnl = Some 5, td_volume = Some 10, td_trade_count = Some 0 \<rparr>
      = None
   \<and> calculate_trading_score
        \<lparr> td_address = Some ''A'', td_pnl = Some 2000000, td_volume = Some 4000000,
          td_trade_count = Some 100 \<rparr>
      = Some \<lparr> address = Some ''A'', pnl = 2000000, volume = 4000000, trade_count = 100,
               efficiency_score = 100, trading_score = 73.6, top_holdings = None \<rparr>"
  by (simp add: process_traders_def score_defs)

section \<open>Properties of the retry loops\<close>

lemma emit_fields:
  "holdings_cache (emit e s) = holdings_cache s" "calls (emit e s) = calls s"
  "backoff_time (emit e s) = backoff_time s" "min_call_interval (emit e s) = min_call_interval s"
  "events (emit e s) = events s @ [e]"
  by (simp_all add: emit_def)

lemma issue_fields:
  "holdings_cache (issue e s) = holdings_cache s" "calls (issue e s) = Suc (calls s)"
  "backoff_time (issue e s) = backoff_time s" "min_call_interval (issue e s) = min_call_interval s"
  "events (issue e s) = events s @ [e]"
  by (simp_all add: issue_def emit_def)

lemma handle_rate_limit_fields:
  "holdings_cache (handle_rate_limit s) = holdings_cache s" "calls (handle_rate_limit s) = calls s"
  "backoff_time (handle_rate_limit s) = backoff_time s * 2"
  "min_call_interval (handle_rate_limit s) = min_call_interval s"
  "events (handle_rate_limit s) = events s @ [Sleep (backoff_time s * 2)]"
  by (simp_all add: handle_rate_limit_def emit_def Let_def)

lemma reset_backoff_fields:
  "holdings_cache (reset_backoff s) = holdings_cache s" "calls (reset_backoff s) = calls s"
  "backoff_time (reset_backoff s) = min_call_interval s"
  "min_call_interval (reset_backoff s) = min_call_interval s"
  "events (reset_backoff s) = events s"
  by (simp_all add: reset_backoff_def)

lemmas analyzer_fields = emit_fields issue_fields handle_rate_limit_fields reset_backoff_fields

lemma consumes_retry_cases:
  assumes "consumes_retry r"
  obtains e where "r = Raises e" | b where "r = Http 429 b" | e where "r = Http 200 (Malformed e)"
  using assms
  by (auto simp: consumes_retry_def split: response.splits body.splits)

lemma holdings_loop_retry_step:
  assumes "consumes_retry (api (calls self) wallet)" and "rc < max_retries"
  shows "\<exists>s1. holdings_retry_loop api wallet rc self = holdings_retry_loop api wallet (rc + 1) s1
          \<and> holdings_cache s1 = holdings_cache self \<and> calls s1 = Suc (calls self)"
  using assms(1)
proof (cases rule: consumes_retry_cases)
  case (1 e)
  with assms(2) have
    "holdings_retry_loop api wallet rc self
       = holdings_retry_loop api wallet (rc + 1) (emit (Sleep 1) (issue (Get_holdings wallet) self))"
    by (subst holdings_retry_loop.simps) simp
  then show ?thesis by (intro exI conjI) (assumption, simp_all add: analyzer_fields)
next
  case (2 b)
  with assms(2) have
    "holdings_retry_loop api wallet rc self
       = holdings_retry_loop api wallet (rc + 1)
           (handle_rate_limit (issue (Get_holdings wallet) self))"
    by (subst holdings_retry_loop.simps) simp
  then show ?thesis by (intro exI conjI) (assumption, simp_all add: analyzer_fields)
next
  case (3 e)
  with assms(2) have
    "holdings_retry_loop api wallet rc self
       = holdings_retry_loop api wallet (rc + 1) (emit (Sleep 1) (issue (Get_holdings wallet) self))"
    by (subst holdings_retry_loop.simps) simp
  then show ?thesis by (intro exI conjI) (assumption, simp_all add: analyzer_fields)
qed


lemma holdings_loop_success:
  "\<forall>i<k. consumes_retry (api (calls self + i) wallet) \<Longrightarrow> rc + k < max_retries
     \<Longrightarrow> api (calls self + k) wallet = Http 200 (Json True hs)
     \<Longrightarrow> \<exists>s1. holdings_retry_loop api wallet rc self = (rc + k, Some (formatted_holdings hs), s1)
           \<and> holdings_cache s1 = (holdings_cache self)(wallet \<mapsto> formatted_holdings hs)
           \<and> calls s1 = calls self + k + 1"
proof (induction k arbitrary: rc self)
  case 0
  then show ?case
    by (subst holdings_retry_loop.simps)
      (simp add: analyzer_fields formatted_holdings_def significant_holdings_def sort_reverse_def Let_def)
next
  case (Suc k)
  from Suc.prems have c0: "consumes_retry (api (calls self) wallet)" and lt: "rc < max_retries"
    by auto
  from holdings_loop_retry_step [of api self wallet rc, OF c0 lt] obtain s1 where
    s1: "holdings_retry_loop api wallet rc self = holdings_retry_loop api wallet (rc + 1) s1"
      "holdings_cache s1 = holdings_cache self" "calls s1 = Suc (calls self)"
    by blast
  have "\<forall>i<k. consumes_retry (api (calls s1 + i) wallet)"
    using Suc.prems(1) s1(3) by (metis Suc_less_eq add_Suc_shift)
  moreover have "rc + 1 + k < max_retries" using Suc.prems(2) by simp
  moreover have "api (calls s1 + k) wallet = Http 200 (Json True hs)"
    using Suc.prems(3) s1(3) by simp
  ultimately obtain s2 where
    s2: "holdings_retry_loop api wallet (rc + 1) s1 = (rc + 1 + k, Some (formatted_holdings hs), s2)"
      "holdings_cache s2 = (holdings_cache s1)(wallet \<mapsto> formatted_holdings hs)"
      "calls s2 = calls s1 + k + 1"
    using Suc.IH by blast
  have "holdings_retry_loop api wallet rc self = (rc + Suc k, Some (formatted_holdings hs), s2)"
    using s1(1) s2(1) by simp
  moreover have "holdings_cache s2 = (holdings_cache self)(wallet \<mapsto> formatted_holdings hs)"
    using s1(2) s2(2) by simp
  moreover have "calls s2 = calls self + Suc k + 1"
    using s1(3) s2(3) by simp
  ultimately show ?case by blast
qed


lemma status_429_D: "status_of r = Some 429 \<Longrightarrow> \<exists>b. r = Http 429 b"
  by (cases r) (simp_all add: status_of_def)

lemma status_D: "status_of r = Some s \<Longrightarrow> \<exists>b. r = Http s b"
  by (cases r) (simp_all add: status_of_def)

lemma raises_exception_cases:
  assumes "raises_exception r"
  obtains e where "r = Raises e" | e where "r = Http 200 (Malformed e)"
  using assms by (auto simp: raises_exception_def split: response.splits body.splits)

lemmas fetch_unfold = max_retries_def issue_def emit_def handle_rate_limit_def reset_backoff_def
  Let_def

lemma holdings_three_429:
  assumes "holdings_cache self wallet = None"
    and "status_of (api (calls self) wallet) = Some 429"
    and "status_of (api (calls self + 1) wallet) = Some 429"
    and "status_of (api (calls self + 2) wallet) = Some 429"
  shows "get_wallet_holdings api wallet self =
     (Some [],
      self\<lparr> backoff_time := backoff_time self * 8, calls := calls self + 3,
            events := events self @
              [Get_holdings wallet, Sleep (backoff_time self * 2),
               Get_holdings wallet, Sleep (backoff_time self * 4),
               Get_holdings wallet, Sleep (backoff_time self * 8),
               Max_retries_wallet wallet] \<rparr>)"
proof -
  from assms(2-4) [THEN status_429_D] obtain b0 b1 b2 where
    "api (calls self) wallet = Http 429 b0"
    "api (Suc (calls self)) wallet = Http 429 b1"
    "api (Suc (Suc (calls self))) wallet = Http 429 b2"
    by (auto simp: numeral_2_eq_2)
  with assms(1) show ?thesis
    by (simp add: get_wallet_holdings_def holdings_retry_loop.simps fetch_unfold)
qed

lemma traders_three_429:
  assumes "status_of (api (calls (fst st)) offset) = Some 429"
    and "status_of (api (calls (fst st) + 1) offset) = Some 429"
    and "status_of (api (calls (fst st) + 2) offset) = Some 429"
  shows "fetch_offset api offset st =
     ((fst st)\<lparr> backoff_time := backoff_time (fst st) * 8, calls := calls (fst st) + 3,
            events := events (fst st) @
              [Get_traders offset 10, Sleep (backoff_time (fst st) * 2),
               Get_traders offset 10, Sleep (backoff_time (fst st) * 4),
               Get_traders offset 10, Sleep (backoff_time (fst st) * 8),
               Max_retries_offset offset] \<rparr>,
      snd st)"
proof -
  from assms [THEN status_429_D] obtain b0 b1 b2 where
    "api (calls (fst st)) offset = Http 429 b0"
    "api (Suc (calls (fst st))) offset = Http 429 b1"
    "api (Suc (Suc (calls (fst st)))) offset = Http 429 b2"
    by (auto simp: numeral_2_eq_2)
  then show ?thesis
    by (simp add: fetch_offset_def traders_retry_loop.simps fetch_unfold)
qed

lemma holdings_429_then_success:
  assumes "holdings_cache self wallet = None"
    and "status_of (api (calls self) wallet) = Some 429"
    and "api (calls self + 1) wallet = Http 200 (Json True hs)"
    and "hs \<noteq> []"
  shows "get_wallet_holdings api wallet self =
     (Some (formatted_holdings hs),
      self\<lparr> backoff_time := min_call_interval self,
            holdings_cache := (holdings_cache self)(wallet \<mapsto> formatted_holdings hs),
            calls := calls self + 2,
            events := events self @
              [Get_holdings wallet, Sleep (backoff_time self * 2), Get_holdings wallet] \<rparr>)"
proof -
  from assms(2) [THEN status_429_D] obtain b0 where "api (calls self) wallet = Http 429 b0"
    by blast
  with assms(1,3,4) show ?thesis
    by (simp add: get_wallet_holdings_def holdings_retry_loop.simps fetch_unfold)
qed

lemma holdings_step_raise:
  assumes "raises_exception (api (calls self) wallet)" and "rc < max_retries"
  shows "holdings_retry_loop api wallet rc self
       = holdings_retry_loop api wallet (rc + 1)
           (self\<lparr> calls := calls self + 1,
                  events := events self @ [Get_holdings wallet, Sleep 1] \<rparr>)"
  using assms(1)
proof (cases rule: raises_exception_cases)
  case (1 e)
  with assms(2) show ?thesis
    by (subst holdings_retry_loop.simps) (simp add: issue_def emit_def)
next
  case (2 e)
  with assms(2) show ?thesis
    by (subst holdings_retry_loop.simps) (simp add: issue_def emit_def)
qed

lemma traders_step_raise:
  assumes "raises_exception (api (calls self) offset)" and "rc < max_retries"
  shows "traders_retry_loop api offset rc self traders
       = traders_retry_loop api offset (rc + 1)
           (self\<lparr> calls := calls self + 1,
                  events := events self @ [Get_traders offset 10, Sleep 1] \<rparr>) traders"
  using assms(1)
proof (cases rule: raises_exception_cases)
  case (1 e)
  with assms(2) show ?thesis
    by (subst traders_retry_loop.simps) (simp add: issue_def emit_def)
next
  case (2 e)
  with assms(2) show ?thesis
    by (subst traders_retry_loop.simps) (simp add: issue_def emit_def)
qed

lemma holdings_three_exceptions:
  assumes "holdings_cache self wallet = None"
    and "raises_exception (api (calls self) wallet)"
    and "raises_exception (api (calls self + 1) wallet)"
    and "raises_exception (api (calls self + 2) wallet)"
  shows "get_wallet_holdings api wallet self =
     (Some [],
      self\<lparr> calls := calls self + 3,
            events := events self @
              [Get_holdings wallet, Sleep 1, Get_holdings wallet, Sleep 1,
               Get_holdings wallet, Sleep 1, Max_retries_wallet wallet] \<rparr>)"
proof -
  have "holdings_retry_loop api wallet 0 self
      = (3, None,
         self\<lparr> calls := calls self + 3,
            events := events self @
              [Get_holdings wallet, Sleep 1, Get_holdings wallet, Sleep 1,
               Get_holdings wallet, Sleep 1] \<rparr>)"
    using assms(2-4)
    by (simp add: holdings_step_raise max_retries_def)
      (simp add: holdings_retry_loop.simps max_retries_def)
  with assms(1) show ?thesis
    by (simp add: get_wallet_holdings_def max_retries_def emit_def)
qed

lemma traders_three_exceptions:
  assumes "raises_exception (api (calls (fst st)) offset)"
    and "raises_exception (api (calls (fst st) + 1) offset)"
    and "raises_exception (api (calls (fst st) + 2) offset)"
  shows "fetch_offset api offset st =
     ((fst st)\<lparr> calls := calls (fst st) + 3,
            events := events (fst st) @
              [Get_traders offset 10, Sleep 1, Get_traders offset 10, Sleep 1,
               Get_traders offset 10, Sleep 1, Max_retries_offset offset] \<rparr>,
      snd st)"
proof -
  have "traders_retry_loop api offset 0 (fst st) (snd st)
      = (3,
         (fst st)\<lparr> calls := calls (fst st) + 3,
            events := events (fst st) @
              [Get_traders offset 10, Sleep 1, Get_traders offset 10, Sleep 1,
               Get_traders offset 10, Sleep 1] \<rparr>, snd st)"
    using assms
    by (simp add: traders_step_raise max_retries_def)
      (simp add: traders_retry_loop.simps max_retries_def)
  then show ?thesis
    by (simp add: fetch_offset_def max_retries_def emit_def)
qed

lemma holdings_status_error:
  assumes "holdings_cache self wallet = None"
    and "status_of (api (calls self) wallet) = Some s" and "s \<noteq> 200" and "s \<noteq> 429"
  shows "get_wallet_holdings api wallet self =
     (None, self\<lparr> calls := calls self + 1, events := events self @ [Get_holdings wallet] \<rparr>)"
proof -
  from assms(2) [THEN status_D] obtain b where "api (calls self) wallet = Http s b" by blast
  with assms(1,3,4) show ?thesis
    by (simp add: get_wallet_holdings_def holdings_retry_loop.simps fetch_unfold)
qed

lemma traders_status_error:
  assumes "status_of (api (calls (fst st)) offset) = Some s" and "s \<noteq> 200" and "s \<noteq> 429"
  shows "fetch_offset api offset st =
     ((fst st)\<lparr> calls := calls (fst st) + 1,
                 events := events (fst st) @ [Get_traders offset 10] \<rparr>, snd st)"
proof -
  from assms(1) [THEN status_D] obtain b where "api (calls (fst st)) offset = Http s b" by blast
  with assms(2,3) show ?thesis
    by (simp add: fetch_offset_def traders_retry_loop.simps fetch_unfold)
qed

lemma requested_offsets_append:
  "requested_offsets (xs @ ys) = requested_offsets xs @ requested_offsets ys"
  by (induction xs rule: requested_offsets.induct) simp_all

lemma holdings_loop_calls:
  "holdings_retry_loop api wallet rc self = (rc', r, s1) \<Longrightarrow>
     calls self \<le> calls s1 \<and> calls s1 \<le> calls self + (max_retries - rc)
     \<and> (rc < max_retries \<longrightarrow> calls self < calls s1)"
proof (induction api wallet rc self rule: holdings_retry_loop.induct)
  case (1 api wallet retry_count self)
  show ?case
  proof (cases "retry_count < max_retries")
    case False
    with "1.prems" show ?thesis
      by (subst (asm) holdings_retry_loop.simps) auto
  next
    case True
    note lt = this
    show ?thesis
    proof (cases "api (calls self) wallet")
      case (Raises e)
      with lt "1.prems" have
        "holdings_retry_loop api wallet (retry_count + 1)
           (emit (Sleep 1) (issue (Get_holdings wallet) self)) = (rc', r, s1)"
        by (subst (asm) holdings_retry_loop.simps) simp
      from "1.IH"(1) [OF lt refl Raises this] lt show ?thesis
        by (auto simp: analyzer_fields)
    next
      case (Http status_code b)
      show ?thesis
      proof (cases "status_code = 429")
        case True
        with lt Http "1.prems" have
          "holdings_retry_loop api wallet (retry_count + 1)
             (handle_rate_limit (issue (Get_holdings wallet) self)) = (rc', r, s1)"
          by (subst (asm) holdings_retry_loop.simps) simp
        from "1.IH"(2) [OF lt refl Http True this] lt show ?thesis
          by (auto simp: analyzer_fields)
      next
        case n429: False
        show ?thesis
        proof (cases "status_code = 200")
          case False
          with lt Http n429 "1.prems" show ?thesis
            by (subst (asm) holdings_retry_loop.simps) (auto simp: analyzer_fields)
        next
          case True
          show ?thesis
          proof (cases b)
            case (Malformed e)
            with lt Http n429 True "1.prems" have
              "holdings_retry_loop api wallet (retry_count + 1)
                 (emit (Sleep 1) (issue (Get_holdings wallet) self)) = (rc', r, s1)"
              by (subst (asm) holdings_retry_loop.simps) simp
            from "1.IH"(3) [OF lt refl Http n429 _ Malformed this] True lt show ?thesis
              by (auto simp: analyzer_fields)
          next
            case (Json success holdings)
            with lt Http n429 True "1.prems" show ?thesis
              by (subst (asm) holdings_retry_loop.simps)
                (auto simp: analyzer_fields Let_def split: if_splits)
          qed
        qed
      qed
    qed
  qed
qed

lemma traders_loop_inv:
  "traders_retry_loop api offset rc self traders = (rc', s1, traders') \<Longrightarrow>
     calls self \<le> calls s1 \<and> calls s1 \<le> calls self + (max_retries - rc)
     \<and> (rc < max_retries \<longrightarrow> calls self < calls s1)
     \<and> holdings_cache s1 = holdings_cache self
     \<and> set (requested_offsets (events s1))
         = set (requested_offsets (events self)) \<union> (if rc < max_retries then {offset} else {})"
proof (induction api offset rc self traders rule: traders_retry_loop.induct)
  case (1 api offset retry_count self traders)
  show ?case
  proof (cases "retry_count < max_retries")
    case False
    with "1.prems" show ?thesis
      by (subst (asm) traders_retry_loop.simps) auto
  next
    case True
    note lt = this
    show ?thesis
    proof (cases "api (calls self) offset")
      case (Raises e)
      with lt "1.prems" have
        "traders_retry_loop api offset (retry_count + 1)
           (emit (Sleep 1) (issue (Get_traders offset 10) self)) traders = (rc', s1, traders')"
        by (subst (asm) traders_retry_loop.simps) simp
      from "1.IH"(1) [OF lt refl Raises this] lt show ?thesis
        by (auto simp: analyzer_fields requested_offsets_append)
    next
      case (Http status_code b)
      show ?thesis
      proof (cases "status_code = 429")
        case True
        with lt Http "1.prems" have
          "traders_retry_loop api offset (retry_count + 1)
             (handle_rate_limit (issue (Get_traders offset 10) self)) traders
           = (rc', s1, traders')"
          by (subst (asm) traders_retry_loop.simps) simp
        from "1.IH"(2) [OF lt refl Http True this] lt show ?thesis
          by (auto simp: analyzer_fields requested_offsets_append)
      next
        case n429: False
        show ?thesis
        proof (cases "status_code = 200")
          case False
          with lt Http n429 "1.prems" show ?thesis
            by (subst (asm) traders_retry_loop.simps)
              (auto simp: analyzer_fields requested_offsets_append)
        next
          case True
          show ?thesis
          proof (cases b)
            case (Malformed e)
            with lt Http n429 True "1.prems" have
              "traders_retry_loop api offset (retry_count + 1)
                 (emit (Sleep 1) (issue (Get_traders offset 10) self)) traders
               = (rc', s1, traders')"
              by (subst (asm) traders_retry_loop.simps) simp
            from "1.IH"(3) [OF lt refl Http n429 _ Malformed this] True lt show ?thesis
              by (auto simp: analyzer_fields requested_offsets_append)
          next
            case (Json success batch)
            with lt Http n429 True "1.prems" show ?thesis
              by (subst (asm) traders_retry_loop.simps)
                (auto simp: analyzer_fields requested_offsets_append Let_def split: if_splits)
          qed
        qed
      qed
    qed
  qed
qed

lemma fetch_offset_inv:
  "calls (fst st) < calls (fst (fetch_offset api offset st))
   \<and> calls (fst (fetch_offset api offset st)) \<le> calls (fst st) + max_retries
   \<and> holdings_cache (fst (fetch_offset api offset st)) = holdings_cache (fst st)
   \<and> set (requested_offsets (events (fst (fetch_offset api offset st))))
       = insert offset (set (requested_offsets (events (fst st))))"
proof -
  obtain rc' s1 traders' where
    loop: "traders_retry_loop api offset 0 (fst st) (snd st) = (rc', s1, traders')"
    by (cases "traders_retry_loop api offset 0 (fst st) (snd st)") auto
  from traders_loop_inv [OF loop] loop show ?thesis
    by (auto simp: fetch_offset_def max_retries_def analyzer_fields requested_offsets_append)
qed

lemma fold_fetch_offset_requested:
  "set (requested_offsets (events (fst (fold (fetch_offset api) offsets st))))
     = set (requested_offsets (events (fst st))) \<union> set offsets"
proof (induction offsets arbitrary: st)
  case Nil
  show ?case by simp
next
  case (Cons offset offsets)
  show ?case
    using Cons.IH [of "fetch_offset api offset st"] fetch_offset_inv [of st api offset]
    by auto
qed

lemma get_top_traders_requests_every_offset:
  "set (requested_offsets (events (fst (get_top_traders api limit self))))
     = set (requested_offsets (events self)) \<union> set (page_offsets limit)"
  by (simp add: get_top_traders_def fold_fetch_offset_requested)

lemma get_wallet_holdings_calls:
  "calls (snd (get_wallet_holdings api wallet self)) \<le> calls self + max_retries"
proof (cases "holdings_cache self wallet")
  case (Some v)
  then show ?thesis by (simp add: get_wallet_holdings_def)
next
  case None
  obtain rc' r s1 where loop: "holdings_retry_loop api wallet 0 self = (rc', r, s1)"
    by (cases "holdings_retry_loop api wallet 0 self") auto
  from holdings_loop_calls [OF loop] loop None show ?thesis
    by (auto simp: get_wallet_holdings_def analyzer_fields split: option.splits)
qed





lemma get_wallet_holdings_success:
  assumes "holdings_cache self wallet = None"
    and "\<forall>i<k. consumes_retry (api (calls self + i) wallet)" and "k < max_retries"
    and "api (calls self + k) wallet = Http 200 (Json True hs)"
  shows "\<exists>s1. get_wallet_holdings api wallet self = (Some (formatted_holdings hs), s1)
           \<and> holdings_cache s1 = (holdings_cache self)(wallet \<mapsto> formatted_holdings hs)
           \<and> calls s1 = calls self + k + 1"
proof -
  from holdings_loop_success [of k api self wallet 0 hs] assms obtain s1 where
    "holdings_retry_loop api wallet 0 self = (k, Some (formatted_holdings hs), s1)"
    "holdings_cache s1 = (holdings_cache self)(wallet \<mapsto> formatted_holdings hs)"
    "calls s1 = calls self + k + 1"
    by auto
  with assms(1) show ?thesis by (simp add: get_wallet_holdings_def)
qed


section \<open>Properties of the float rounding and of the printed digits\<close>

lemma pow2_powr: "pow2 e = 2 powr (of_int e)"
  by (simp add: pow2_def powr_real_of_int field_simps)

lemma pow2_pos: "0 < pow2 e"
  by (simp add: pow2_powr)

lemma pow2_Suc: "pow2 (e + 1) = 2 * pow2 e"
  by (simp add: pow2_powr powr_add)

lemma pow2_pred: "pow2 (e - 1) = pow2 e / 2"
  by (simp add: pow2_powr powr_diff)

lemma exponent_up_bounds: "1 \<le> x \<Longrightarrow> pow2 (exponent_up x) \<le> x \<and> x < pow2 (exponent_up x + 1)"
proof (induction x rule: exponent_up.induct)
  case (1 x)
  show ?case
  proof (cases "2 \<le> x")
    case False
    then have "exponent_up x = 0" by (subst exponent_up.simps) simp
    with "1.prems" False show ?thesis
      by (simp add: pow2_def)
  next
    case True
    then have "1 \<le> x / 2" by simp
    from "1.IH" [OF True this] have
      "pow2 (exponent_up (x / 2)) \<le> x / 2" "x / 2 < pow2 (exponent_up (x / 2) + 1)" by auto
    moreover have "exponent_up x = exponent_up (x / 2) + 1"
      using True by (subst exponent_up.simps) simp
    moreover have "pow2 (exponent_up (x / 2) + 1 + 1) = 2 * pow2 (exponent_up (x / 2) + 1)"
      by (rule pow2_Suc)
    moreover have "pow2 (exponent_up (x / 2) + 1) = 2 * pow2 (exponent_up (x / 2))"
      by (rule pow2_Suc)
    ultimately show ?thesis
      by (simp only:) (intro conjI; linarith)
  qed
qed

lemma exponent_down_bounds:
  "0 < x \<Longrightarrow> x < 2 \<Longrightarrow> pow2 (exponent_down x) \<le> x \<and> x < pow2 (exponent_down x + 1)"
proof (induction x rule: exponent_down.induct)
  case (1 x)
  show ?case
  proof (cases "x < 1")
    case False
    then have "exponent_down x = 0" by (subst exponent_down.simps) simp
    with "1.prems" False show ?thesis
      by (simp add: pow2_def)
  next
    case True
    with "1.prems" have c: "0 < x \<and> x < 1" and "0 < x * 2" "x * 2 < 2" by auto
    from "1.IH" [OF c this(2,3)] have
      "pow2 (exponent_down (x * 2)) \<le> x * 2" "x * 2 < pow2 (exponent_down (x * 2) + 1)" by auto
    moreover have "exponent_down x = exponent_down (x * 2) - 1"
      using c by (subst exponent_down.simps) simp
    moreover have "pow2 (exponent_down (x * 2) - 1) = pow2 (exponent_down (x * 2)) / 2"
      by (rule pow2_pred)
    moreover have "pow2 (exponent_down (x * 2) + 1) = 2 * pow2 (exponent_down (x * 2))"
      by (rule pow2_Suc)
    moreover have "exponent_down (x * 2) - 1 + 1 = exponent_down (x * 2)" by simp
    ultimately show ?thesis
      by (simp only:) (intro conjI; linarith)
  qed
qed

lemma binary_exponent_bounds:
  assumes "x \<noteq> 0"
  shows "pow2 (binary_exponent x) \<le> \<bar>x\<bar> \<and> \<bar>x\<bar> < pow2 (binary_exponent x + 1)"
proof (cases "1 \<le> \<bar>x\<bar>")
  case True
  then show ?thesis by (simp add: binary_exponent_def exponent_up_bounds)
next
  case False
  with assms have "0 < \<bar>x\<bar>" "\<bar>x\<bar> < 2" by auto
  from exponent_down_bounds [OF this] False show ?thesis by (simp add: binary_exponent_def)
qed

lemma round_half_even_nearest: "\<bar>real_of_int (round_half_even y) - y\<bar> \<le> 1 / 2"
  unfolding round_half_even_def Let_def by (auto simp: abs_le_iff)

lemma ulp_pos: "0 < ulp x"
  by (simp add: ulp_def pow2_pos)

lemma to_double_nearest: "\<bar>to_double x - x\<bar> \<le> ulp x / 2"
proof (cases "x = 0")
  case True
  then show ?thesis using ulp_pos [of x] by (simp add: to_double_def)
next
  case False
  have "to_double x - x = (real_of_int (round_half_even (x / ulp x)) - x / ulp x) * ulp x"
    using False ulp_pos [of x] by (simp add: to_double_def field_simps)
  then have "\<bar>to_double x - x\<bar>
      = \<bar>real_of_int (round_half_even (x / ulp x)) - x / ulp x\<bar> * ulp x"
    using ulp_pos [of x] by (simp add: abs_mult)
  also have "\<dots> \<le> 1 / 2 * ulp x"
    using round_half_even_nearest [of "x / ulp x"] ulp_pos [of x]
    by (intro mult_right_mono) simp_all
  finally show ?thesis by simp
qed

lemma below_10: "(k::nat) < 10 \<Longrightarrow> k \<in> set [0, 1, 2, 3, 4, 5, 6, 7, 8, 9]"
  by (simp only: list.set insert_iff empty_iff) arith

lemma digits_below_10:
  "\<forall>k \<in> set [0, 1, 2, 3, 4, 5, 6, 7, 8, 9 :: nat].
     digit_value (''0123456789'' ! k) = k \<and> is_digit (''0123456789'' ! k)"
  by (simp add: digit_value_def is_digit_def)

lemma digit_value_digit_char: "digit_value (digit_char d) = d mod 10"
proof -
  have "d mod 10 \<in> set [0, 1, 2, 3, 4, 5, 6, 7, 8, 9]" by (rule below_10) simp
  with digits_below_10 show ?thesis unfolding digit_char_def by blast
qed

lemma is_digit_digit_char: "is_digit (digit_char d)"
proof -
  have "d mod 10 \<in> set [0, 1, 2, 3, 4, 5, 6, 7, 8, 9]" by (rule below_10) simp
  with digits_below_10 show ?thesis unfolding digit_char_def by blast
qed

lemma nat_of_digits_snoc: "nat_of_digits (s @ [c]) = nat_of_digits s * 10 + digit_value c"
  by (simp add: nat_of_digits_def)

lemma nat_of_digits_str_of_nat: "nat_of_digits (str_of_nat n) = n"
proof (induction n rule: str_of_nat.induct)
  case (1 n)
  show ?case
  proof (cases "n < 10")
    case True
    then show ?thesis
      by (subst str_of_nat.simps) (simp add: nat_of_digits_def digit_value_digit_char)
  next
    case False
    with "1.IH" have "nat_of_digits (str_of_nat (n div 10)) = n div 10" by simp
    with False show ?thesis
      by (subst str_of_nat.simps) (simp add: nat_of_digits_snoc digit_value_digit_char)
  qed
qed

lemma str_of_nat_digits: "str_of_nat n \<noteq> [] \<and> list_all is_digit (str_of_nat n)"
proof (induction n rule: str_of_nat.induct)
  case (1 n)
  show ?case
  proof (cases "n < 10")
    case True
    then show ?thesis
      by (subst (1 2) str_of_nat.simps) (simp add: is_digit_digit_char)
  next
    case False
    with "1.IH" have "list_all is_digit (str_of_nat (n div 10))" by simp
    with False show ?thesis
      by (subst (1 2) str_of_nat.simps) (simp add: is_digit_digit_char)
  qed
qed

lemma hundredths_nearest: "\<bar>real_of_int (hundredths x) - x * 100\<bar> \<le> 1 / 2"
  unfolding hundredths_def by (rule round_half_even_nearest)

lemma round_half_even_nonneg: "0 \<le> y \<Longrightarrow> 0 \<le> round_half_even y"
  unfolding round_half_even_def Let_def by (auto simp: zero_le_floor)

lemma format_2f_reads_back:
  assumes "0 \<le> x"
  shows "\<exists>ip fp. format_2f x = ip @ ''.'' @ fp \<and> ip \<noteq> [] \<and> length fp = 2
           \<and> list_all is_digit ip \<and> list_all is_digit fp
           \<and> real (nat_of_digits ip) + real (nat_of_digits fp) / 100
               = real_of_int (hundredths x) / 100"
proof -
  define c where "c = nat (hundredths x)"
  have nn: "0 \<le> hundredths x"
    unfolding hundredths_def using assms by (intro round_half_even_nonneg) simp
  let ?ip = "str_of_nat (c div 100)"
  let ?fp = "[digit_char (c div 10 mod 10), digit_char (c mod 10)]"
  have f: "format_2f x = ?ip @ ''.'' @ ?fp"
    using assms by (simp add: format_2f_def c_def Let_def)
  have "c div 10 mod 10 * 10 + c mod 10 = c mod 100"
    using mod_mult2_eq [of c 10 10] by simp
  then have v: "nat_of_digits ?fp = c mod 100"
    by (simp add: nat_of_digits_def digit_value_digit_char)
  have "real (nat_of_digits ?ip) + real (nat_of_digits ?fp) / 100
      = real (c div 100) + real (c mod 100) / 100"
    by (simp only: v nat_of_digits_str_of_nat)
  also have "\<dots> = real c / 100"
  proof -
    have "real (c div 100 * 100 + c mod 100) = real c" by (simp only: div_mult_mod_eq)
    then have "real (c div 100) * 100 + real (c mod 100) = real c"
      by (simp only: of_nat_add of_nat_mult of_nat_numeral)
    then show ?thesis by (simp add: field_simps)
  qed
  also have "\<dots> = real_of_int (hundredths x) / 100"
    using nn by (simp add: c_def)
  finally have val: "real (nat_of_digits ?ip) + real (nat_of_digits ?fp) / 100
      = real_of_int (hundredths x) / 100" .
  from f val str_of_nat_digits [of "c div 100"] show ?thesis
    by (intro exI [of _ ?ip] exI [of _ ?fp]) (simp add: is_digit_digit_char)
qed

section \<open>Properties of the holdings filter and format\<close>

lemma significant_holdings_props:
  "set (significant_holdings hs) = {h \<in> set hs. is_significant h}"
  by (simp add: significant_holdings_def set_sort_reverse)

lemma is_significant_D:
  "is_significant h \<Longrightarrow>
     \<exists>s v. h_symbol h = Some s \<and> h_valueUsd h = Some v \<and> v \<ge> SIGNIFICANT_HOLDING_THRESHOLD
        \<and> s \<noteq> [] \<and> s \<noteq> ''USDC'' \<and> s \<noteq> ''SOL''"
  by (auto simp: is_significant_def truthy_str_def truthy_num_def dict_get_def split: option.splits)

lemma formatted_holdings_sources:
  assumes "s \<in> set (formatted_holdings hs)"
  shows "\<exists>h \<in> set hs. \<exists>sym v.
         h_symbol h = Some sym \<and> h_valueUsd h = Some v
         \<and> v \<ge> SIGNIFICANT_HOLDING_THRESHOLD \<and> sym \<noteq> [] \<and> sym \<noteq> ''USDC'' \<and> sym \<noteq> ''SOL''
         \<and> s = sym @ '' '' @ format_2f (to_double (to_double v / 1000000)) @ ''m''"
proof -
  from assms obtain h where h: "h \<in> set hs" "is_significant h" and s: "s = format_holding h"
    by (auto simp: formatted_holdings_def significant_holdings_props)
  from is_significant_D [OF h(2)] obtain sym v where
    sv: "h_symbol h = Some sym" "h_valueUsd h = Some v" "v \<ge> SIGNIFICANT_HOLDING_THRESHOLD"
      "sym \<noteq> []" "sym \<noteq> ''USDC''" "sym \<noteq> ''SOL''"
    by blast
  have "s = sym @ '' '' @ format_2f (to_double (to_double v / 1000000)) @ ''m''"
    using s sv(1,2) by (simp add: format_holding_def dict_get_def)
  with h(1) sv show ?thesis by blast
qed

lemma significant_holdings_sorted_float:
  "sorted_wrt (\<lambda>a b. to_double (dict_get (h_valueUsd a) 0) \<ge> to_double (dict_get (h_valueUsd b) 0))
     (significant_holdings hs)"
  unfolding significant_holdings_def by (rule sort_reverse_sorted)

lemma significant_holdings_sorted_exact:
  assumes "\<forall>h \<in> set hs. \<forall>v. h_valueUsd h = Some v \<longrightarrow> is_double v"
  shows "sorted_wrt (\<lambda>a b. dict_get (h_valueUsd a) 0 \<ge> dict_get (h_valueUsd b) 0)
     (significant_holdings hs)"
proof -
  have same: "to_double (dict_get (h_valueUsd a) 0) = dict_get (h_valueUsd a) 0"
    if "a \<in> set (significant_holdings hs)" for a
  proof -
    from that have "a \<in> set hs" "is_significant a" by (simp_all add: significant_holdings_props)
    with is_significant_D [of a] assms show ?thesis
      by (auto simp: dict_get_def is_double_def)
  qed
  show ?thesis
    by (rule sorted_wrt_mono_rel [OF _ significant_holdings_sorted_float]) (simp add: same)
qed

lemma first_response_success:
  assumes "holdings_cache self wallet = None"
    and "api (calls self) wallet = Http 200 (Json True hs)"
  shows "fst (get_wallet_holdings api wallet self) = Some (formatted_holdings hs)"
  using get_wallet_holdings_success [of self wallet 0 api hs] assms
  by (auto simp: max_retries_def)

lemmas double_defs = to_double_def ulp_def binary_exponent_def pow2_def round_half_even_def
  exponent_up.simps exponent_down.simps is_double_def

lemmas holdings_defs = formatted_holdings_def significant_holdings_def sort_reverse_def
  is_significant_def dict_get_def SIGNIFICANT_HOLDING_THRESHOLD_def truthy_str_def truthy_num_def
  format_holding_def format_2f_def hundredths_def str_of_nat.simps digit_char_def double_defs
  Let_def

text \<open>
  Claim C8. For every raw holdings list, every string of the formatted output comes from
  a holding of the list whose valueUsd is at least SIGNIFICANT_HOLDING_THRESHOLD and whose
  symbol is non-empty and neither USDC nor SOL, and it is that symbol, a space, the float
  quotient of the value by 1000000 to two decimals, and the letter m. The output is the
  list of the significant holdings, formatted one by one, in descending order of the
  value as a float, which is the descending order of valueUsd when the values are numbers
  a float holds exactly; no significant holding is left out. The float quotient is
  within half a unit in the last place of the real one, the two decimals printed are those
  of the hundredth nearest to the float, and the printed string is digits, a point and two
  digits that read back as that number of hundredths. A fetch whose first response is a
  successful body with these holdings returns exactly this output.
\<close>

theorem formatted_holdings_filtered_sorted_formatted:
  "(\<forall>s \<in> set (formatted_holdings hs).
      \<exists>h \<in> set hs. \<exists>sym v.
         h_symbol h = Some sym \<and> h_valueUsd h = Some v
         \<and> v \<ge> SIGNIFICANT_HOLDING_THRESHOLD \<and> sym \<noteq> [] \<and> sym \<noteq> ''USDC'' \<and> sym \<noteq> ''SOL''
         \<and> s = sym @ '' '' @ format_2f (to_double (to_double v / 1000000)) @ ''m'')
   \<and> formatted_holdings hs = map format_holding (significant_holdings hs)
   \<and> sorted_wrt
        (\<lambda>a b. to_double (dict_get (h_valueUsd a) 0) \<ge> to_double (dict_get (h_valueUsd b) 0))
        (significant_holdings hs)
   \<and> ((\<forall>h \<in> set hs. \<forall>v. h_valueUsd h = Some v \<longrightarrow> is_double v)
        \<longrightarrow> sorted_wrt (\<lambda>a b. dict_get (h_valueUsd a) 0 \<ge> dict_get (h_valueUsd b) 0)
              (significant_holdings hs))
   \<and> (\<forall>h \<in> set hs. is_significant h \<longrightarrow> format_holding h \<in> set (formatted_holdings hs))
   \<and> (\<forall>x. \<bar>to_double x - x\<bar> \<le> ulp x / 2)
   \<and> (\<forall>x. \<bar>real_of_int (hundredths x) - x * 100\<bar> \<le> 1 / 2)
   \<and> (\<forall>x\<ge>0. \<exists>ip fp. format_2f x = ip @ ''.'' @ fp \<and> ip \<noteq> [] \<and> length fp = 2
           \<and> list_all is_digit ip \<and> list_all is_digit fp
           \<and> real (nat_of_digits ip) + real (nat_of_digits fp) / 100
               = real_of_int (hundredths x) / 100)
   \<and> (holdings_cache self wallet = None \<and> api (calls self) wallet = Http 200 (Json True hs)
        \<longrightarrow> fst (get_wallet_holdings api wallet self) = Some (formatted_holdings hs))"
proof (intro conjI ballI allI impI)
  fix s assume "s \<in> set (formatted_holdings hs)"
  then show "\<exists>h \<in> set hs. \<exists>sym v.
         h_symbol h = Some sym \<and> h_valueUsd h = Some v
         \<and> v \<ge> SIGNIFICANT_HOLDING_THRESHOLD \<and> sym \<noteq> [] \<and> sym \<noteq> ''USDC'' \<and> sym \<noteq> ''SOL''
         \<and> s = sym @ '' '' @ format_2f (to_double (to_double v / 1000000)) @ ''m''"
    by (rule formatted_holdings_sources)
next
  show "formatted_holdings hs = map format_holding (significant_holdings hs)"
    by (simp add: formatted_holdings_def)
next
  show "sorted_wrt
        (\<lambda>a b. to_double (dict_get (h_valueUsd a) 0) \<ge> to_double (dict_get (h_valueUsd b) 0))
        (significant_holdings hs)"
    by (rule significant_holdings_sorted_float)
next
  assume "\<forall>h \<in> set hs. \<forall>v. h_valueUsd h = Some v \<longrightarrow> is_double v"
  then show "sorted_wrt (\<lambda>a b. dict_get (h_valueUsd a) 0 \<ge> dict_get (h_valueUsd b) 0)
              (significant_holdings hs)"
    by (rule significant_holdings_sorted_exact)
next
  fix h assume "h \<in> set hs" "is_significant h"
  then show "format_holding h \<in> set (formatted_holdings hs)"
    by (simp add: formatted_holdings_def significant_holdings_props)
next
  fix x show "\<bar>to_double x - x\<bar> \<le> ulp x / 2"
    by (rule to_double_nearest)
next
  fix x show "\<bar>real_of_int (hundredths x) - x * 100\<bar> \<le> 1 / 2"
    by (rule hundredths_nearest)
next
  fix x :: real assume "0 \<le> x"
  then show "\<exists>ip fp. format_2f x = ip @ ''.'' @ fp \<and> ip \<noteq> [] \<and> length fp = 2
           \<and> list_all is_digit ip \<and> list_all is_digit fp
           \<and> real (nat_of_digits ip) + real (nat_of_digits fp) / 100
               = real_of_int (hundredths x) / 100"
    by (rule format_2f_reads_back)
next
  assume "holdings_cache self wallet = None
    \<and> api (calls self) wallet = Http 200 (Json True hs)"
  then show "fst (get_wallet_holdings api wallet self) = Some (formatted_holdings hs)"
    by (intro first_response_success) simp_all
qed

text \<open>
  The theorem at nine holdings whose values are numbers a float holds exactly. Three are
  significant and appear in descending order of value. XYZ with 15000000 is printed as
  \<open>XYZ 15.00m\<close>; 25000 is printed as 0.03 and 15000 as 0.01, because the doubles nearest
  to 0.025 and to 0.015 lie above and below these decimal ties.
\<close>

theorem formatted_holdings_filtered_sorted_formatted_witness:
  "formatted_holdings
     [\<lparr> h_symbol = Some ''ABC'', h_valueUsd = Some 15000 \<rparr>,
      \<lparr> h_symbol = Some ''USDC'', h_valueUsd = Some 5000000 \<rparr>,
      \<lparr> h_symbol = Some ''XYZ'', h_valueUsd = Some 15000000 \<rparr>,
      \<lparr> h_symbol = Some ''LOW'', h_valueUsd = Some 8999.5 \<rparr>,
      \<lparr> h_symbol = Some [], h_valueUsd = Some 20000 \<rparr>,
      \<lparr> h_symbol = Some ''SOL'', h_valueUsd = Some 70000000 \<rparr>,
      \<lparr> h_symbol = None, h_valueUsd = Some 30000 \<rparr>,
      \<lparr> h_symbol = Some ''NOV'', h_valueUsd = None \<rparr>,
      \<lparr> h_symbol = Some ''MID'', h_valueUsd = Some 25000 \<rparr>]
   = [''XYZ 15.00m'', ''MID 0.03m'', ''ABC 0.01m'']
   \<and> is_double 15000 \<and> is_double 5000000 \<and> is_double 15000000 \<and> is_double 8999.5
   \<and> is_double 20000 \<and> is_double 70000000 \<and> is_double 30000 \<and> is_double 25000
   \<and> fst (get_wallet_holdings
        (\<lambda>n k. Http 200 (Json True
           [\<lparr> h_symbol = Some ''ABC'', h_valueUsd = Some 15000 \<rparr>,
            \<lparr> h_symbol = Some ''USDC'', h_valueUsd = Some 5000000 \<rparr>,
            \<lparr> h_symbol = Some ''XYZ'', h_valueUsd = Some 15000000 \<rparr>,
            \<lparr> h_symbol = Some ''LOW'', h_valueUsd = Some 8999.5 \<rparr>,
            \<lparr> h_symbol = Some [], h_valueUsd = Some 20000 \<rparr>,
            \<lparr> h_symbol = Some ''SOL'', h_valueUsd = Some 70000000 \<rparr>,
            \<lparr> h_symbol = None, h_valueUsd = Some 30000 \<rparr>,
            \<lparr> h_symbol = Some ''NOV'', h_valueUsd = None \<rparr>,
            \<lparr> h_symbol = Some ''MID'', h_valueUsd = Some 25000 \<rparr>]))
        ''w'' new_analyzer)
     = Some [''XYZ 15.00m'', ''MID 0.03m'', ''ABC 0.01m'']"
proof -
  let ?hs = "[\<lparr> h_symbol = Some ''ABC'', h_valueUsd = Some 15000 \<rparr>,
      \<lparr> h_symbol = Some ''USDC'', h_valueUsd = Some 5000000 \<rparr>,
      \<lparr> h_symbol = Some ''XYZ'', h_valueUsd = Some 15000000 \<rparr>,
      \<lparr> h_symbol = Some ''LOW'', h_valueUsd = Some 8999.5 \<rparr>,
      \<lparr> h_symbol = Some [], h_valueUsd = Some 20000 \<rparr>,
      \<lparr> h_symbol = Some ''SOL'', h_valueUsd = Some 70000000 \<rparr>,
      \<lparr> h_symbol = None, h_valueUsd = Some 30000 \<rparr>,
      \<lparr> h_symbol = Some ''NOV'', h_valueUsd = None \<rparr>,
      \<lparr> h_symbol = Some ''MID'', h_valueUsd = Some 25000 \<rparr>]"
  let ?api = "\<lambda>(n::nat) (k::string). Http 200 (Json True ?hs)"
  have d: "is_double 15000" "is_double 5000000" "is_double 15000000" "is_double 8999.5"
    "is_double 20000" "is_double 70000000" "is_double 30000" "is_double 25000"
    by (simp_all add: double_defs)
  have f: "formatted_holdings ?hs = [''XYZ 15.00m'', ''MID 0.03m'', ''ABC 0.01m'']"
    by (simp add: holdings_defs)
  have c: "holdings_cache new_analyzer ''w'' = None
    \<and> ?api (calls new_analyzer) ''w'' = Http 200 (Json True ?hs)"
    by (simp add: new_analyzer_def)
  from formatted_holdings_filtered_sorted_formatted
    [where hs = ?hs and self = new_analyzer and wallet = "''w''" and api = ?api]
  have "holdings_cache new_analyzer ''w'' = None
      \<and> ?api (calls new_analyzer) ''w'' = Http 200 (Json True ?hs)
    \<longrightarrow> fst (get_wallet_holdings ?api ''w'' new_analyzer) = Some (formatted_holdings ?hs)"
    by (elim conjE) assumption
  from this c have "fst (get_wallet_holdings ?api ''w'' new_analyzer)
      = Some (formatted_holdings ?hs)"
    by (rule mp)
  then have g: "fst (get_wallet_holdings ?api ''w'' new_analyzer)
      = Some [''XYZ 15.00m'', ''MID 0.03m'', ''ABC 0.01m'']"
    by (simp only: f)
  from f d g show ?thesis by (intro conjI)
qed

section \<open>Pagination, rate limits and retries\<close>

text \<open>
  Claim C3 on the code. The pages are requested with page size 10 at the offsets of
  \<open>range(0, limit, 10)\<close>, but an empty page does not end the pagination: the
  \<open>break\<close> on an empty batch leaves the retry loop of that offset only. With limit 30 and
  an upstream whose second page is empty, offset 20 is still requested after the empty
  page at offset 10, and its items are appended. For every upstream and every limit, each
  offset below the limit is requested (lemma \<open>get_top_traders_requests_every_offset\<close>).
\<close>

theorem empty_page_does_not_stop_pagination:
  "get_top_traders
     (scripted
        [Http 200 (Json True [\<lparr> td_address = Some ''A'', td_pnl = Some 10, td_volume = Some 20,
                                 td_trade_count = Some 3 \<rparr>]),
         Http 200 (Json True []),
         Http 200 (Json True [\<lparr> td_address = Some ''B'', td_pnl = Some 30, td_volume = Some 40,
                                 td_trade_count = Some 5 \<rparr>])])
     30 new_analyzer
   = (new_analyzer\<lparr> calls := 3,
        events := [Get_traders 0 10, Get_traders 10 10, Get_traders 20 10] \<rparr>,
      [\<lparr> td_address = Some ''A'', td_pnl = Some 10, td_volume = Some 20, td_trade_count = Some 3 \<rparr>,
       \<lparr> td_address = Some ''B'', td_pnl = Some 30, td_volume = Some 40, td_trade_count = Some 5 \<rparr>])
   \<and> requested_offsets
        [Get_traders 0 10, Get_traders 10 10, Get_traders 20 10] = [0, 10, 20]"
  by (simp add: get_top_traders_def page_offsets_def upt_rec fetch_offset_def
      traders_retry_loop.simps scripted_def new_analyzer_def fetch_unfold)

text \<open>
  Claim C4, as the code has it. A 429 response doubles the backoff, sleeps the doubled
  interval and sends the loop round again, but it adds one to \<open>retry_count\<close> like any
  other failure. No call of \<open>get_wallet_holdings\<close> and no page fetch issues more than
  \<open>max_retries\<close> = 3 requests; three 429 responses in a row end the request (an empty
  list for a wallet, no traders for a page) after sleeps of 2, 4 and 8 times the backoff;
  a 429 followed by a successful response with holdings yields those holdings after one
  sleep of twice the backoff, and the backoff goes back to its minimum.
\<close>

theorem rate_limit_consumes_retry_attempts:
  "calls (snd (get_wallet_holdings api wallet self)) \<le> calls self + max_retries
   \<and> calls (fst (fetch_offset tapi offset st)) \<le> calls (fst st) + max_retries
   \<and> (holdings_cache self wallet = None
        \<and> status_of (api (calls self) wallet) = Some 429
        \<and> status_of (api (calls self + 1) wallet) = Some 429
        \<and> status_of (api (calls self + 2) wallet) = Some 429
      \<longrightarrow> get_wallet_holdings api wallet self =
            (Some [],
             self\<lparr> backoff_time := backoff_time self * 8, calls := calls self + 3,
                   events := events self @
                     [Get_holdings wallet, Sleep (backoff_time self * 2),
                      Get_holdings wallet, Sleep (backoff_time self * 4),
                      Get_holdings wallet, Sleep (backoff_time self * 8),
                      Max_retries_wallet wallet] \<rparr>))
   \<and> (status_of (tapi (calls (fst st)) offset) = Some 429
        \<and> status_of (tapi (calls (fst st) + 1) offset) = Some 429
        \<and> status_of (tapi (calls (fst st) + 2) offset) = Some 429
      \<longrightarrow> fetch_offset tapi offset st =
            ((fst st)\<lparr> backoff_time := backoff_time (fst st) * 8, calls := calls (fst st) + 3,
                   events := events (fst st) @
                     [Get_traders offset 10, Sleep (backoff_time (fst st) * 2),
                      Get_traders offset 10, Sleep (backoff_time (fst st) * 4),
                      Get_traders offset 10, Sleep (backoff_time (fst st) * 8),
                      Max_retries_offset offset] \<rparr>,
             snd st))
   \<and> (holdings_cache self wallet = None
        \<and> status_of (rapi (calls self) wallet) = Some 429
        \<and> rapi (calls self + 1) wallet = Http 200 (Json True hs) \<and> hs \<noteq> []
      \<longrightarrow> get_wallet_holdings rapi wallet self =
            (Some (formatted_holdings hs),
             self\<lparr> backoff_time := min_call_interval self,
                   holdings_cache := (holdings_cache self)(wallet \<mapsto> formatted_holdings hs),
                   calls := calls self + 2,
                   events := events self @
                     [Get_holdings wallet, Sleep (backoff_time self * 2),
                      Get_holdings wallet] \<rparr>))"
proof (intro conjI impI)
  show "calls (snd (get_wallet_holdings api wallet self)) \<le> calls self + max_retries"
    by (rule get_wallet_holdings_calls)
next
  show "calls (fst (fetch_offset tapi offset st)) \<le> calls (fst st) + max_retries"
    using fetch_offset_inv [of st tapi offset] by simp
next
  assume "holdings_cache self wallet = None
        \<and> status_of (api (calls self) wallet) = Some 429
        \<and> status_of (api (calls self + 1) wallet) = Some 429
        \<and> status_of (api (calls self + 2) wallet) = Some 429"
  then show "get_wallet_holdings api wallet self =
            (Some [],
             self\<lparr> backoff_time := backoff_time self * 8, calls := calls self + 3,
                   events := events self @
                     [Get_holdings wallet, Sleep (backoff_time self * 2),
                      Get_holdings wallet, Sleep (backoff_time self * 4),
                      Get_holdings wallet, Sleep (backoff_time self * 8),
                      Max_retries_wallet wallet] \<rparr>)"
    by (intro holdings_three_429) simp_all
next
  assume "status_of (tapi (calls (fst st)) offset) = Some 429
        \<and> status_of (tapi (calls (fst st) + 1) offset) = Some 429
        \<and> status_of (tapi (calls (fst st) + 2) offset) = Some 429"
  then show "fetch_offset tapi offset st =
            ((fst st)\<lparr> backoff_time := backoff_time (fst st) * 8, calls := calls (fst st) + 3,
                   events := events (fst st) @
                     [Get_traders offset 10, Sleep (backoff_time (fst st) * 2),
                      Get_traders offset 10, Sleep (backoff_time (fst st) * 4),
                      Get_traders offset 10, Sleep (backoff_time (fst st) * 8),
                      Max_retries_offset offset] \<rparr>,
             snd st)"
    by (intro traders_three_429) simp_all
next
  assume "holdings_cache self wallet = None
        \<and> status_of (rapi (calls self) wallet) = Some 429
        \<and> rapi (calls self + 1) wallet = Http 200 (Json True hs) \<and> hs \<noteq> []"
  then show "get_wallet_holdings rapi wallet self =
            (Some (formatted_holdings hs),
             self\<lparr> backoff_time := min_call_interval self,
                   holdings_cache := (holdings_cache self)(wallet \<mapsto> formatted_holdings hs),
                   calls := calls self + 2,
                   events := events self @
                     [Get_holdings wallet, Sleep (backoff_time self * 2),
                      Get_holdings wallet] \<rparr>)"
    by (intro holdings_429_then_success) simp_all
qed

text \<open>
  The theorem at an upstream that always answers 429, for a wallet and for offset 20, and
  at an upstream that answers 429 once and then succeeds.
\<close>

theorem rate_limit_consumes_retry_attempts_witness:
  "get_wallet_holdings always_429 ''w'' (new_analyzer\<lparr> calls := 5 \<rparr>)
   = (Some [],
      new_analyzer\<lparr> backoff_time := 4, calls := 8,
        events := [Get_holdings ''w'', Sleep 1, Get_holdings ''w'', Sleep 2,
                   Get_holdings ''w'', Sleep 4, Max_retries_wallet ''w''] \<rparr>)
   \<and> fetch_offset always_429 20 (new_analyzer\<lparr> calls := 5 \<rparr>, [])
     = (new_analyzer\<lparr> backoff_time := 4, calls := 8,
          events := [Get_traders 20 10, Sleep 1, Get_traders 20 10, Sleep 2,
                     Get_traders 20 10, Sleep 4, Max_retries_offset 20] \<rparr>, [])
   \<and> get_wallet_holdings
        (\<lambda>n k. if n = 5 then Http 429 (Json False [])
               else Http 200 (Json True [\<lparr> h_symbol = Some ''XYZ'', h_valueUsd = Some 15000000 \<rparr>]))
        ''w'' (new_analyzer\<lparr> calls := 5 \<rparr>)
     = (Some [''XYZ 15.00m''],
        new_analyzer\<lparr> holdings_cache := [''w'' \<mapsto> [''XYZ 15.00m'']], calls := 7,
          events := [Get_holdings ''w'', Sleep 1, Get_holdings ''w''] \<rparr>)"
  using rate_limit_consumes_retry_attempts [where api = always_429 and tapi = always_429 and wallet = "''w''"
      and self = "new_analyzer\<lparr> calls := 5 \<rparr>" and offset = 20
      and st = "(new_analyzer\<lparr> calls := 5 \<rparr>, [])"
      and rapi = "\<lambda>n k. if n = 5 then Http 429 (Json False [])
               else Http 200 (Json True [\<lparr> h_symbol = Some ''XYZ'', h_valueUsd = Some 15000000 \<rparr>])"
      and hs = "[\<lparr> h_symbol = Some ''XYZ'', h_valueUsd = Some 15000000 \<rparr>]"]
  by (simp add: always_429_def new_analyzer_def status_of_def holdings_defs)

text \<open>
  Claim C4 as stated fails: against an upstream that answers nothing but 429, the holdings
  fetch gives up after three requests, logs that the retries are used up and returns the
  empty list.
\<close>

theorem three_rate_limits_abandon_request:
  "get_wallet_holdings always_429 ''w'' new_analyzer
   = (Some [],
      new_analyzer\<lparr> backoff_time := 4, calls := 3,
        events := [Get_holdings ''w'', Sleep 1, Get_holdings ''w'', Sleep 2,
                   Get_holdings ''w'', Sleep 4, Max_retries_wallet ''w''] \<rparr>)"
  by (simp add: get_wallet_holdings_def holdings_retry_loop.simps always_429_def new_analyzer_def
      fetch_unfold)

text \<open>
  Claim C5, as the code has it. A request that raises (a timeout, a connection error, a
  body that cannot be parsed) is retried: three raising attempts in a row, each followed
  by a sleep of one second, end the unit of work with the empty list for a wallet and
  with no traders for a page. A response with a status other than 200 and 429, a 5xx
  among them, is not retried: the retry loop is left after that one request, without a
  sleep and with nothing cached. In every case the run goes on: each offset below the
  limit is requested.
\<close>

theorem exceptions_retried_status_errors_not:
  "(holdings_cache self wallet = None
      \<and> raises_exception (api (calls self) wallet)
      \<and> raises_exception (api (calls self + 1) wallet)
      \<and> raises_exception (api (calls self + 2) wallet)
    \<longrightarrow> get_wallet_holdings api wallet self =
          (Some [],
           self\<lparr> calls := calls self + 3,
                 events := events self @
                   [Get_holdings wallet, Sleep 1, Get_holdings wallet, Sleep 1,
                    Get_holdings wallet, Sleep 1, Max_retries_wallet wallet] \<rparr>))
   \<and> (raises_exception (tapi (calls (fst st)) offset)
      \<and> raises_exception (tapi (calls (fst st) + 1) offset)
      \<and> raises_exception (tapi (calls (fst st) + 2) offset)
    \<longrightarrow> fetch_offset tapi offset st =
          ((fst st)\<lparr> calls := calls (fst st) + 3,
                 events := events (fst st) @
                   [Get_traders offset 10, Sleep 1, Get_traders offset 10, Sleep 1,
                    Get_traders offset 10, Sleep 1, Max_retries_offset offset] \<rparr>,
           snd st))
   \<and> (holdings_cache self wallet = None
      \<and> status_of (eapi (calls self) wallet) = Some s \<and> s \<noteq> 200 \<and> s \<noteq> 429
    \<longrightarrow> snd (get_wallet_holdings eapi wallet self) =
          self\<lparr> calls := calls self + 1,
                events := events self @ [Get_holdings wallet] \<rparr>)
   \<and> (status_of (etapi (calls (fst st)) offset) = Some s \<and> s \<noteq> 200 \<and> s \<noteq> 429
    \<longrightarrow> fetch_offset etapi offset st =
          ((fst st)\<lparr> calls := calls (fst st) + 1,
                      events := events (fst st) @ [Get_traders offset 10] \<rparr>, snd st))
   \<and> set (requested_offsets (events (fst (get_top_traders tapi limit self))))
       = set (requested_offsets (events self)) \<union> set (page_offsets limit)"
proof (intro conjI impI)
  assume "holdings_cache self wallet = None
      \<and> raises_exception (api (calls self) wallet)
      \<and> raises_exception (api (calls self + 1) wallet)
      \<and> raises_exception (api (calls self + 2) wallet)"
  then show "get_wallet_holdings api wallet self =
          (Some [],
           self\<lparr> calls := calls self + 3,
                 events := events self @
                   [Get_holdings wallet, Sleep 1, Get_holdings wallet, Sleep 1,
                    Get_holdings wallet, Sleep 1, Max_retries_wallet wallet] \<rparr>)"
    by (intro holdings_three_exceptions) simp_all
next
  assume "raises_exception (tapi (calls (fst st)) offset)
      \<and> raises_exception (tapi (calls (fst st) + 1) offset)
      \<and> raises_exception (tapi (calls (fst st) + 2) offset)"
  then show "fetch_offset tapi offset st =
          ((fst st)\<lparr> calls := calls (fst st) + 3,
                 events := events (fst st) @
                   [Get_traders offset 10, Sleep 1, Get_traders offset 10, Sleep 1,
                    Get_traders offset 10, Sleep 1, Max_retries_offset offset] \<rparr>,
           snd st)"
    by (intro traders_three_exceptions) simp_all
next
  assume "holdings_cache self wallet = None
      \<and> status_of (eapi (calls self) wallet) = Some s \<and> s \<noteq> 200 \<and> s \<noteq> 429"
  then have "get_wallet_holdings eapi wallet self =
          (None, self\<lparr> calls := calls self + 1,
                       events := events self @ [Get_holdings wallet] \<rparr>)"
    by (intro holdings_status_error [where s = s]) simp_all
  then show "snd (get_wallet_holdings eapi wallet self) =
          self\<lparr> calls := calls self + 1,
                events := events self @ [Get_holdings wallet] \<rparr>"
    by simp
next
  assume "status_of (etapi (calls (fst st)) offset) = Some s \<and> s \<noteq> 200 \<and> s \<noteq> 429"
  then show "fetch_offset etapi offset st =
          ((fst st)\<lparr> calls := calls (fst st) + 1,
                      events := events (fst st) @ [Get_traders offset 10] \<rparr>, snd st)"
    by (intro traders_status_error [where s = s]) simp_all
next
  show "set (requested_offsets (events (fst (get_top_traders tapi limit self))))
       = set (requested_offsets (events self)) \<union> set (page_offsets limit)"
    by (rule get_top_traders_requests_every_offset)
qed

text \<open>
  The theorem at an upstream that always times out and at one that always answers 500,
  for a wallet, for offset 10 and for limit 30.
\<close>

theorem exceptions_retried_status_errors_not_witness:
  "get_wallet_holdings always_timeout ''w'' new_analyzer
   = (Some [],
      new_analyzer\<lparr> calls := 3,
        events := [Get_holdings ''w'', Sleep 1, Get_holdings ''w'', Sleep 1,
                   Get_holdings ''w'', Sleep 1, Max_retries_wallet ''w''] \<rparr>)
   \<and> fetch_offset always_timeout 10 (new_analyzer, [])
     = (new_analyzer\<lparr> calls := 3,
          events := [Get_traders 10 10, Sleep 1, Get_traders 10 10, Sleep 1,
                     Get_traders 10 10, Sleep 1, Max_retries_offset 10] \<rparr>, [])
   \<and> snd (get_wallet_holdings always_500 ''w'' new_analyzer)
     = new_analyzer\<lparr> calls := 1, events := [Get_holdings ''w''] \<rparr>
   \<and> fetch_offset always_500 10 (new_analyzer, [])
     = (new_analyzer\<lparr> calls := 1, events := [Get_traders 10 10] \<rparr>, [])
   \<and> set (requested_offsets (events (fst (get_top_traders always_timeout 30 new_analyzer))))
     = {0, 10, 20}"
  using exceptions_retried_status_errors_not [where api = always_timeout and tapi = always_timeout and eapi = always_500
      and etapi = always_500 and wallet = "''w''" and self = new_analyzer and offset = 10
      and st = "(new_analyzer, [])" and s = 500 and limit = 30]
  by (simp add: always_timeout_def always_500_def new_analyzer_def status_of_def
      raises_exception_def page_offsets_def upt_rec)

text \<open>
  Claim C5 as stated fails for HTTP 5xx: against an upstream that answers 500 the holdings
  fetch and the page fetch each issue a single request and do not retry.
\<close>

theorem http_500_is_not_retried:
  "get_wallet_holdings always_500 ''w'' new_analyzer
   = (None, new_analyzer\<lparr> calls := 1, events := [Get_holdings ''w''] \<rparr>)
   \<and> fetch_offset always_500 0 (new_analyzer, [])
     = (new_analyzer\<lparr> calls := 1, events := [Get_traders 0 10] \<rparr>, [])"
  by (simp add: get_wallet_holdings_def holdings_retry_loop.simps fetch_offset_def
      traders_retry_loop.simps always_500_def new_analyzer_def fetch_unfold)

section \<open>The holdings cache\<close>



section \<open>Properties of the reconciliation\<close>

lemma filter_map_unchanged:
  "(\<And>x. x \<in> set xs \<Longrightarrow> P (f x) = P x \<and> (P x \<longrightarrow> f x = x))
     \<Longrightarrow> filter P (map f xs) = filter P xs"
  by (induction xs) auto

lemma ledger_lookup_Some_D:
  "ledger_lookup w L = Some r \<Longrightarrow> r \<in> set L \<and> Wallet_Address r = w"
  unfolding ledger_lookup_def by (induction L) (auto split: if_splits)

lemma ledger_lookup_map:
  "(\<And>r. Wallet_Address (f r) = Wallet_Address r)
     \<Longrightarrow> ledger_lookup w (map f L) = map_option f (ledger_lookup w L)"
  unfolding ledger_lookup_def by (induction L) auto

lemma ledger_lookup_append:
  "ledger_lookup w (L @ L') =
     (case ledger_lookup w L of None \<Rightarrow> ledger_lookup w L' | Some r \<Rightarrow> Some r)"
  unfolding ledger_lookup_def by (induction L) auto

lemma reconcile_row_existing:
  assumes "ledger_lookup (Wallet row) L = Some r0"
  shows "reconcile_row today row L =
     map (\<lambda>r. if Wallet_Address r = Wallet row
               then r\<lparr> composite_score := composite_score r0 * 0.7 + Trading_Score row * 0.3,
                       appearances := appearances r0 + 1 \<rparr>
               else r) L"
  using assms by (simp add: reconcile_row_def ledger_lookup_def Let_def)

lemma reconcile_row_absent:
  assumes "ledger_lookup (Wallet row) L = None"
  shows "reconcile_row today row L =
     L @ [\<lparr> Wallet_Address = Wallet row, composite_score = Trading_Score row,
             last_seen = today, appearances = 1 \<rparr>]"
  using assms by (simp add: reconcile_row_def ledger_lookup_def Let_def)

lemma reconcile_row_other:
  assumes "w \<noteq> Wallet row"
  shows "ledger_lookup w (reconcile_row today row L) = ledger_lookup w L"
proof (cases "ledger_lookup (Wallet row) L")
  case None
  with assms show ?thesis
    by (simp add: reconcile_row_absent ledger_lookup_append split: option.splits)
      (auto simp: ledger_lookup_def)
next
  case (Some r0)
  have "ledger_lookup w (reconcile_row today row L)
      = map_option (\<lambda>r. if Wallet_Address r = Wallet row
               then r\<lparr> composite_score := composite_score r0 * 0.7 + Trading_Score row * 0.3,
                       appearances := appearances r0 + 1 \<rparr>
               else r) (ledger_lookup w L)"
    unfolding reconcile_row_existing [OF Some] by (rule ledger_lookup_map) simp
  also have "\<dots> = ledger_lookup w L"
  proof (cases "ledger_lookup w L")
    case None
    then show ?thesis by simp
  next
    case (Some r)
    with ledger_lookup_Some_D [OF Some] assms show ?thesis by simp
  qed
  finally show ?thesis .
qed

lemmas ledger_defs = update_scores_def sort_values_desc_def sort_reverse_def update_last_seen_def
  reconcile_row_def ledger_lookup_def untouched_by_def Let_def

lemma reconcile_row_step:
  "(ledger_lookup (Wallet row) L = Some r0 \<longrightarrow>
      ledger_lookup (Wallet row) (reconcile_row today row L)
        = Some (r0\<lparr> composite_score := 0.7 * composite_score r0 + 0.3 * Trading_Score row,
                    appearances := appearances r0 + 1 \<rparr>)
      \<and> length (reconcile_row today row L) = length L)
   \<and> (ledger_lookup (Wallet row) L = None \<longrightarrow>
      reconcile_row today row L
        = L @ [\<lparr> Wallet_Address = Wallet row, composite_score = Trading_Score row,
                  last_seen = today, appearances = 1 \<rparr>]
      \<and> ledger_lookup (Wallet row) (reconcile_row today row L)
        = Some \<lparr> Wallet_Address = Wallet row, composite_score = Trading_Score row,
                 last_seen = today, appearances = 1 \<rparr>)
   \<and> (\<forall>w. w \<noteq> Wallet row \<longrightarrow>
        ledger_lookup w (reconcile_row today row L) = ledger_lookup w L)"
proof (intro conjI impI allI)
  assume ex: "ledger_lookup (Wallet row) L = Some r0"
  have "ledger_lookup (Wallet row) (reconcile_row today row L)
      = map_option (\<lambda>r. if Wallet_Address r = Wallet row
               then r\<lparr> composite_score := composite_score r0 * 0.7 + Trading_Score row * 0.3,
                       appearances := appearances r0 + 1 \<rparr>
               else r) (ledger_lookup (Wallet row) L)"
    unfolding reconcile_row_existing [OF ex] by (rule ledger_lookup_map) simp
  with ex ledger_lookup_Some_D [OF ex]
  show "ledger_lookup (Wallet row) (reconcile_row today row L)
        = Some (r0\<lparr> composite_score := 0.7 * composite_score r0 + 0.3 * Trading_Score row,
                    appearances := appearances r0 + 1 \<rparr>)"
    by (simp add: mult.commute)
  show "length (reconcile_row today row L) = length L"
    by (simp add: reconcile_row_existing [OF ex])
next
  assume ab: "ledger_lookup (Wallet row) L = None"
  show "reconcile_row today row L
        = L @ [\<lparr> Wallet_Address = Wallet row, composite_score = Trading_Score row,
                  last_seen = today, appearances = 1 \<rparr>]"
    by (rule reconcile_row_absent [OF ab])
  show "ledger_lookup (Wallet row) (reconcile_row today row L)
        = Some \<lparr> Wallet_Address = Wallet row, composite_score = Trading_Score row,
                 last_seen = today, appearances = 1 \<rparr>"
    using ab by (simp add: reconcile_row_absent ledger_lookup_append) (simp add: ledger_lookup_def)
next
  fix w assume "w \<noteq> Wallet row"
  then show "ledger_lookup w (reconcile_row today row L) = ledger_lookup w L"
    by (rule reconcile_row_other)
qed

lemma find_unique:
  "\<forall>x \<in> set xs. P x \<longrightarrow> x = y \<Longrightarrow> \<exists>x \<in> set xs. P x \<Longrightarrow> find P xs = Some y"
  by (induction xs) auto

lemma ledger_lookup_None_D:
  "ledger_lookup w L = None \<Longrightarrow> \<forall>r \<in> set L. Wallet_Address r \<noteq> w"
  unfolding ledger_lookup_def by (induction L) (auto split: if_splits)

lemma find_via_filter:
  "find P xs = (case filter P xs of [] \<Rightarrow> None | x # _ \<Rightarrow> Some x)"
  by (induction xs) auto

lemma reconcile_row_rows_of_other:
  assumes "Wallet row \<noteq> w"
  shows "filter (\<lambda>r. Wallet_Address r = w) (reconcile_row today row L)
       = filter (\<lambda>r. Wallet_Address r = w) L"
proof (cases "ledger_lookup (Wallet row) L")
  case None
  with assms show ?thesis by (simp add: reconcile_row_absent)
next
  case (Some r0)
  show ?thesis
    unfolding reconcile_row_existing [OF Some]
    using assms by (intro filter_map_unchanged) auto
qed

lemma fold_reconcile_rows_of_other:
  "w \<notin> Wallet ` set rows
     \<Longrightarrow> filter (\<lambda>r. Wallet_Address r = w) (fold (reconcile_row today) rows L)
         = filter (\<lambda>r. Wallet_Address r = w) L"
proof (induction rows arbitrary: L)
  case Nil
  show ?case by simp
next
  case (Cons row rows)
  then have "Wallet row \<noteq> w" "w \<notin> Wallet ` set rows" by auto
  with Cons.IH [of "reconcile_row today row L"] show ?case
    by (simp add: reconcile_row_rows_of_other)
qed

text \<open>The rows of wallet w after the whole loop, when exactly one snapshot row names w.\<close>

lemma fold_reconcile_rows_of_wallet:
  assumes "distinct (map Wallet current_df)" and "row \<in> set current_df"
  shows "filter (\<lambda>r. Wallet_Address r = Wallet row)
           (fold (reconcile_row today) current_df L)
       = filter (\<lambda>r. Wallet_Address r = Wallet row) (reconcile_row today row L)"
proof -
  from assms(2) obtain pre post where split: "current_df = pre @ row # post"
    by (auto simp: in_set_conv_decomp)
  with assms(1) have pre: "Wallet row \<notin> Wallet ` set pre" and post: "Wallet row \<notin> Wallet ` set post"
    by auto
  let ?P = "\<lambda>r. Wallet_Address r = Wallet row"
  let ?L1 = "fold (reconcile_row today) pre L"
  have l1: "filter ?P ?L1 = filter ?P L"
    by (rule fold_reconcile_rows_of_other [OF pre])
  have step: "filter ?P (reconcile_row today row ?L1) = filter ?P (reconcile_row today row L)"
  proof -
    have look: "ledger_lookup (Wallet row) ?L1 = ledger_lookup (Wallet row) L"
      unfolding ledger_lookup_def by (simp only: find_via_filter [of ?P] l1)
    show ?thesis
    proof (cases "ledger_lookup (Wallet row) L")
      case None
      with look have "ledger_lookup (Wallet row) ?L1 = None" by simp
      from reconcile_row_absent [OF this] reconcile_row_absent [OF None] l1 show ?thesis
        by simp
    next
      case (Some r0)
      with look have "ledger_lookup (Wallet row) ?L1 = Some r0" by simp
      from reconcile_row_existing [OF this] reconcile_row_existing [OF Some] l1 show ?thesis
        by (simp add: filter_map comp_def)
    qed
  qed
  have "fold (reconcile_row today) current_df L
      = fold (reconcile_row today) post (reconcile_row today row ?L1)"
    by (simp add: split)
  then have "filter ?P (fold (reconcile_row today) current_df L)
      = filter ?P (reconcile_row today row ?L1)"
    by (simp only: fold_reconcile_rows_of_other [OF post])
  with step show ?thesis by simp
qed

lemma update_last_seen_rows_of_wallet:
  assumes "w \<in> set current_wallets"
  shows "filter (\<lambda>r. Wallet_Address r = w) (update_last_seen today current_wallets L)
       = map (\<lambda>r. r\<lparr> last_seen := today \<rparr>) (filter (\<lambda>r. Wallet_Address r = w) L)"
  using assms unfolding update_last_seen_def by (induction L) auto

lemma update_scores_rows_of_wallet:
  assumes "distinct (map Wallet current_df)" and "row \<in> set current_df"
  shows "set (filter (\<lambda>r. Wallet_Address r = Wallet row) (update_scores today L current_df))
       = (\<lambda>r. r\<lparr> last_seen := today \<rparr>)
           ` set (filter (\<lambda>r. Wallet_Address r = Wallet row) (reconcile_row today row L))"
proof -
  let ?P = "\<lambda>r. Wallet_Address r = Wallet row"
  let ?L3 = "fold (reconcile_row today) current_df L"
  from assms(2) have w: "Wallet row \<in> set (map Wallet current_df)" by auto
  have "set (filter ?P (update_scores today L current_df))
      = set (filter ?P (update_last_seen today (map Wallet current_df) ?L3))"
    by (simp add: update_scores_def sort_values_desc_def set_sort_reverse)
  also have "\<dots> = (\<lambda>r. r\<lparr> last_seen := today \<rparr>) ` set (filter ?P ?L3)"
    by (simp only: update_last_seen_rows_of_wallet [OF w] set_map)
  also have "filter ?P ?L3 = filter ?P (reconcile_row today row L)"
    by (rule fold_reconcile_rows_of_wallet [OF assms])
  finally show ?thesis .
qed

lemma update_scores_existing:
  assumes "distinct (map Wallet current_df)" and "row \<in> set current_df"
    and "ledger_lookup (Wallet row) L = Some r0"
  shows "ledger_lookup (Wallet row) (update_scores today L current_df)
       = Some (r0\<lparr> composite_score := 0.7 * composite_score r0 + 0.3 * Trading_Score row,
                   appearances := appearances r0 + 1, last_seen := today \<rparr>)"
proof -
  let ?P = "\<lambda>r. Wallet_Address r = Wallet row"
  let ?R = "r0\<lparr> composite_score := 0.7 * composite_score r0 + 0.3 * Trading_Score row,
                   appearances := appearances r0 + 1, last_seen := today \<rparr>"
  from ledger_lookup_Some_D [OF assms(3)] have r0: "r0 \<in> set L" "Wallet_Address r0 = Wallet row"
    by auto
  have rows: "set (filter ?P (update_scores today L current_df))
      = (\<lambda>r. r\<lparr> last_seen := today \<rparr>) ` set (filter ?P (reconcile_row today row L))"
    by (rule update_scores_rows_of_wallet [OF assms(1,2)])
  have all: "\<forall>x \<in> set (update_scores today L current_df). ?P x \<longrightarrow> x = ?R"
  proof (intro ballI impI)
    fix x assume "x \<in> set (update_scores today L current_df)" "?P x"
    then have "x \<in> set (filter ?P (update_scores today L current_df))" by simp
    with rows obtain y where y: "y \<in> set (reconcile_row today row L)" "?P y"
      and x: "x = y\<lparr> last_seen := today \<rparr>" by auto
    from y(1) obtain z where z: "z \<in> set L"
      and yz: "y = (if Wallet_Address z = Wallet row
               then z\<lparr> composite_score := composite_score r0 * 0.7 + Trading_Score row * 0.3,
                       appearances := appearances r0 + 1 \<rparr>
               else z)"
      unfolding reconcile_row_existing [OF assms(3)] by auto
    from y(2) yz have "Wallet_Address z = Wallet row" by (auto split: if_splits)
    with yz x r0(2) show "x = ?R" by (simp add: mult.commute)
  qed
  have ex: "\<exists>x \<in> set (update_scores today L current_df). ?P x"
  proof -
    have "r0\<lparr> composite_score := composite_score r0 * 0.7 + Trading_Score row * 0.3,
              appearances := appearances r0 + 1 \<rparr> \<in> set (filter ?P (reconcile_row today row L))"
      unfolding reconcile_row_existing [OF assms(3)] using r0 by (auto intro!: image_eqI [of _ _ r0])
    then have "set (filter ?P (reconcile_row today row L)) \<noteq> {}" by auto
    then have "set (filter ?P (update_scores today L current_df)) \<noteq> {}"
      unfolding rows by (simp only: image_is_empty) simp
    then show ?thesis by (auto simp: filter_empty_conv)
  qed
  from find_unique [OF all ex] show ?thesis by (simp add: ledger_lookup_def)
qed

lemma update_scores_absent:
  assumes "distinct (map Wallet current_df)" and "row \<in> set current_df"
    and "ledger_lookup (Wallet row) L = None"
  shows "ledger_lookup (Wallet row) (update_scores today L current_df)
       = Some \<lparr> Wallet_Address = Wallet row, composite_score = Trading_Score row,
                last_seen = today, appearances = 1 \<rparr>"
proof -
  let ?P = "\<lambda>r. Wallet_Address r = Wallet row"
  let ?R = "\<lparr> Wallet_Address = Wallet row, composite_score = Trading_Score row,
                last_seen = today, appearances = 1 \<rparr>"
  from ledger_lookup_None_D [OF assms(3)] have none: "filter ?P L = []"
    by (auto simp: filter_empty_conv)
  have "filter ?P (reconcile_row today row L) = [?R]"
    by (simp add: reconcile_row_absent [OF assms(3)] none)
  with update_scores_rows_of_wallet [OF assms(1,2), of today L]
  have rows: "set (filter ?P (update_scores today L current_df)) = {?R}" by simp
  then have "\<forall>x \<in> set (update_scores today L current_df). ?P x \<longrightarrow> x = ?R"
    and "\<exists>x \<in> set (update_scores today L current_df). ?P x" by auto
  from find_unique [OF this] show ?thesis by (simp add: ledger_lookup_def)
qed

text \<open>
  Claim C2. For every ledger, every date and every snapshot that names each wallet once,
  and for every row of the snapshot: if the ledger has a record for the row's wallet,
  with score S0 and k appearances, then the record that the reconciled ledger has for
  that wallet has the score 0.7 * S0 + 0.3 * S1, where S1 is the row's trading score,
  k + 1 appearances and the date of the run; if the ledger has none, the reconciled
  ledger has the record with score S1, 1 appearance and the date of the run. For every
  snapshot, each iteration of the loop does this for its row: it blends the record of
  the row's wallet and keeps the number of rows, or appends the new record, and leaves
  the records of all other wallets as they are.
\<close>

theorem update_scores_blends_or_inserts:
  "(distinct (map Wallet current_df) \<and> row \<in> set current_df
      \<and> ledger_lookup (Wallet row) historical_df = Some r0
    \<longrightarrow> ledger_lookup (Wallet row) (update_scores today historical_df current_df)
        = Some (r0\<lparr> composite_score := 0.7 * composite_score r0 + 0.3 * Trading_Score row,
                    appearances := appearances r0 + 1, last_seen := today \<rparr>))
   \<and> (distinct (map Wallet current_df) \<and> row \<in> set current_df
      \<and> ledger_lookup (Wallet row) historical_df = None
    \<longrightarrow> ledger_lookup (Wallet row) (update_scores today historical_df current_df)
        = Some \<lparr> Wallet_Address = Wallet row, composite_score = Trading_Score row,
                 last_seen = today, appearances = 1 \<rparr>)
   \<and> (ledger_lookup (Wallet row) historical_df = Some r0 \<longrightarrow>
      ledger_lookup (Wallet row) (reconcile_row today row historical_df)
        = Some (r0\<lparr> composite_score := 0.7 * composite_score r0 + 0.3 * Trading_Score row,
                    appearances := appearances r0 + 1 \<rparr>)
      \<and> length (reconcile_row today row historical_df) = length historical_df)
   \<and> (ledger_lookup (Wallet row) historical_df = None \<longrightarrow>
      reconcile_row today row historical_df
        = historical_df @ [\<lparr> Wallet_Address = Wallet row, composite_score = Trading_Score row,
                  last_seen = today, appearances = 1 \<rparr>]
      \<and> ledger_lookup (Wallet row) (reconcile_row today row historical_df)
        = Some \<lparr> Wallet_Address = Wallet row, composite_score = Trading_Score row,
                 last_seen = today, appearances = 1 \<rparr>)
   \<and> (\<forall>w. w \<noteq> Wallet row \<longrightarrow>
        ledger_lookup w (reconcile_row today row historical_df) = ledger_lookup w historical_df)"
proof -
  have existing: "distinct (map Wallet current_df) \<and> row \<in> set current_df
      \<and> ledger_lookup (Wallet row) historical_df = Some r0
    \<longrightarrow> ledger_lookup (Wallet row) (update_scores today historical_df current_df)
        = Some (r0\<lparr> composite_score := 0.7 * composite_score r0 + 0.3 * Trading_Score row,
                    appearances := appearances r0 + 1, last_seen := today \<rparr>)"
    by (intro impI, elim conjE, rule update_scores_existing)
  have absent: "distinct (map Wallet current_df) \<and> row \<in> set current_df
      \<and> ledger_lookup (Wallet row) historical_df = None
    \<longrightarrow> ledger_lookup (Wallet row) (update_scores today historical_df current_df)
        = Some \<lparr> Wallet_Address = Wallet row, composite_score = Trading_Score row,
                 last_seen = today, appearances = 1 \<rparr>"
    by (intro impI, elim conjE, rule update_scores_absent)
  show ?thesis
    by (rule conjI [OF existing conjI [OF absent reconcile_row_step]])
qed

text \<open>
  The theorem at the ledger A (score 50, 2 appearances), B and the snapshot A (score 90),
  C (score 80): after the reconciliation A has the score 62, 3 appearances and the date
  of the run, and C, unknown before, has the score 80, 1 appearance and that date.
\<close>

theorem update_scores_blends_or_inserts_witness:
  "update_scores ''2026-11-03''
     [\<lparr> Wallet_Address = ''A'', composite_score = 50, last_seen = ''2026-10-27'', appearances = 2 \<rparr>,
      \<lparr> Wallet_Address = ''B'', composite_score = 10, last_seen = ''2026-10-20'', appearances = 1 \<rparr>]
     [\<lparr> Wallet = ''A'', Trading_Score = 90 \<rparr>, \<lparr> Wallet = ''C'', Trading_Score = 80 \<rparr>]
   = [\<lparr> Wallet_Address = ''C'', composite_score = 80, last_seen = ''2026-11-03'', appearances = 1 \<rparr>,
      \<lparr> Wallet_Address = ''A'', composite_score = 62, last_seen = ''2026-11-03'', appearances = 3 \<rparr>,
      \<lparr> Wallet_Address = ''B'', composite_score = 10, last_seen = ''2026-10-20'', appearances = 1 \<rparr>]
   \<and> distinct (map Wallet [\<lparr> Wallet = ''A'', Trading_Score = 90 \<rparr>,
                              \<lparr> Wallet = ''C'', Trading_Score = 80 \<rparr>])
   \<and> ledger_lookup ''A''
     [\<lparr> Wallet_Address = ''A'', composite_score = 50, last_seen = ''2026-10-27'', appearances = 2 \<rparr>,
      \<lparr> Wallet_Address = ''B'', composite_score = 10, last_seen = ''2026-10-20'', appearances = 1 \<rparr>]
     = Some \<lparr> Wallet_Address = ''A'', composite_score = 50, last_seen = ''2026-10-27'',
              appearances = 2 \<rparr>
   \<and> ledger_lookup ''A''
       (update_scores ''2026-11-03''
          [\<lparr> Wallet_Address = ''A'', composite_score = 50, last_seen = ''2026-10-27'',
             appearances = 2 \<rparr>,
           \<lparr> Wallet_Address = ''B'', composite_score = 10, last_seen = ''2026-10-20'',
             appearances = 1 \<rparr>]
          [\<lparr> Wallet = ''A'', Trading_Score = 90 \<rparr>, \<lparr> Wallet = ''C'', Trading_Score = 80 \<rparr>])
     = Some \<lparr> Wallet_Address = ''A'', composite_score = 62, last_seen = ''2026-11-03'',
              appearances = 3 \<rparr>
   \<and> ledger_lookup ''C''
     [\<lparr> Wallet_Address = ''A'', composite_score = 50, last_seen = ''2026-10-27'', appearances = 2 \<rparr>,
      \<lparr> Wallet_Address = ''B'', composite_score = 10, last_seen = ''2026-10-20'', appearances = 1 \<rparr>]
     = None
   \<and> ledger_lookup ''C''
       (update_scores ''2026-11-03''
          [\<lparr> Wallet_Address = ''A'', composite_score = 50, last_seen = ''2026-10-27'',
             appearances = 2 \<rparr>,
           \<lparr> Wallet_Address = ''B'', composite_score = 10, last_seen = ''2026-10-20'',
             appearances = 1 \<rparr>]
          [\<lparr> Wallet = ''A'', Trading_Score = 90 \<rparr>, \<lparr> Wallet = ''C'', Trading_Score = 80 \<rparr>])
     = Some \<lparr> Wallet_Address = ''C'', composite_score = 80, last_seen = ''2026-11-03'',
              appearances = 1 \<rparr>"
  using
    update_scores_blends_or_inserts
      [where row = "\<lparr> Wallet = ''A'', Trading_Score = 90 \<rparr>" and today = "''2026-11-03''"
        and current_df = "[\<lparr> Wallet = ''A'', Trading_Score = 90 \<rparr>,
                           \<lparr> Wallet = ''C'', Trading_Score = 80 \<rparr>]"
        and ?r0.0 = "\<lparr> Wallet_Address = ''A'', composite_score = 50, last_seen = ''2026-10-27'',
              appearances = 2 \<rparr>"
        and historical_df =
          "[\<lparr> Wallet_Address = ''A'', composite_score = 50, last_seen = ''2026-10-27'',
              appearances = 2 \<rparr>,
            \<lparr> Wallet_Address = ''B'', composite_score = 10, last_seen = ''2026-10-20'',
              appearances = 1 \<rparr>]"]
    update_scores_blends_or_inserts
      [where row = "\<lparr> Wallet = ''C'', Trading_Score = 80 \<rparr>" and today = "''2026-11-03''"
        and current_df = "[\<lparr> Wallet = ''A'', Trading_Score = 90 \<rparr>,
                           \<lparr> Wallet = ''C'', Trading_Score = 80 \<rparr>]"
        and historical_df =
          "[\<lparr> Wallet_Address = ''A'', composite_score = 50, last_seen = ''2026-10-27'',
              appearances = 2 \<rparr>,
            \<lparr> Wallet_Address = ''B'', composite_score = 10, last_seen = ''2026-10-20'',
              appearances = 1 \<rparr>]"]
  by (simp add: ledger_defs)


lemma reconcile_row_untouched:
  assumes "Wallet row \<in> set (map Wallet S)"
  shows "filter (untouched_by S) (reconcile_row today row L) = filter (untouched_by S) L"
proof (cases "ledger_lookup (Wallet row) L")
  case None
  with assms show ?thesis
    by (simp add: reconcile_row_absent untouched_by_def)
next
  case (Some r0)
  show ?thesis
    unfolding reconcile_row_existing [OF Some]
    using assms by (intro filter_map_unchanged) (auto simp: untouched_by_def)
qed

lemma fold_reconcile_untouched:
  "set (map Wallet rows) \<subseteq> set (map Wallet S)
     \<Longrightarrow> filter (untouched_by S) (fold (reconcile_row today) rows L) = filter (untouched_by S) L"
proof (induction rows arbitrary: L)
  case Nil
  show ?case by simp
next
  case (Cons row rows)
  from Cons.prems have "Wallet row \<in> set (map Wallet S)" "set (map Wallet rows) \<subseteq> set (map Wallet S)"
    by auto
  with Cons.IH [of "reconcile_row today row L"] show ?case
    by (simp add: reconcile_row_untouched)
qed

lemma update_last_seen_untouched:
  "filter (untouched_by S) (update_last_seen today (map Wallet S) L) = filter (untouched_by S) L"
  unfolding update_last_seen_def
  by (intro filter_map_unchanged) (auto simp: untouched_by_def)

lemma length_reconcile_row: "length L \<le> length (reconcile_row today row L)"
  by (cases "ledger_lookup (Wallet row) L")
    (simp_all add: reconcile_row_absent reconcile_row_existing)

lemma length_fold_reconcile: "length L \<le> length (fold (reconcile_row today) rows L)"
proof (induction rows arbitrary: L)
  case Nil
  show ?case by simp
next
  case (Cons row rows)
  from Cons.IH [of "reconcile_row today row L"] length_reconcile_row [of L today row]
  show ?case by simp
qed

text \<open>
  Claim C9. For every ledger, snapshot and date, the ledger rows whose wallet does not
  occur in the snapshot are after the reconciliation the same rows, with the same
  composite_score, appearances and last_seen, up to their order; reconciling the empty
  snapshot gives the rows of the ledger, up to their order; and the ledger never
  shrinks.
\<close>

theorem update_scores_leaves_other_rows:
  "mset (filter (untouched_by current_df) (update_scores today historical_df current_df))
     = mset (filter (untouched_by current_df) historical_df)
   \<and> mset (update_scores today historical_df []) = mset historical_df
   \<and> length historical_df \<le> length (update_scores today historical_df current_df)"
proof (intro conjI)
  have "mset (filter (untouched_by current_df) (update_scores today historical_df current_df))
      = mset (filter (untouched_by current_df)
          (update_last_seen today (map Wallet current_df)
             (fold (reconcile_row today) current_df historical_df)))"
    by (simp add: update_scores_def sort_values_desc_def mset_sort_reverse)
  also have "\<dots> = mset (filter (untouched_by current_df)
                        (fold (reconcile_row today) current_df historical_df))"
    by (simp only: update_last_seen_untouched)
  also have "\<dots> = mset (filter (untouched_by current_df) historical_df)"
    by (simp only: fold_reconcile_untouched [OF subset_refl])
  finally show "mset (filter (untouched_by current_df) (update_scores today historical_df current_df))
     = mset (filter (untouched_by current_df) historical_df)" .
next
  show "mset (update_scores today historical_df []) = mset historical_df"
    by (simp add: update_scores_def sort_values_desc_def mset_sort_reverse update_last_seen_def)
next
  show "length historical_df \<le> length (update_scores today historical_df current_df)"
    using length_fold_reconcile [of historical_df today current_df]
    by (simp add: update_scores_def sort_values_desc_def sort_reverse_def update_last_seen_def)
qed

text \<open>
  The theorem at the ledger B, A, D and the snapshot A, C: after the reconciliation B and
  D are as they were.
\<close>

theorem update_scores_leaves_other_rows_witness:
  "update_scores ''2026-11-03''
     [\<lparr> Wallet_Address = ''B'', composite_score = 70, last_seen = ''2026-10-20'', appearances = 1 \<rparr>,
      \<lparr> Wallet_Address = ''A'', composite_score = 50, last_seen = ''2026-10-27'', appearances = 2 \<rparr>,
      \<lparr> Wallet_Address = ''D'', composite_score = 60, last_seen = ''2026-10-13'', appearances = 4 \<rparr>]
     [\<lparr> Wallet = ''A'', Trading_Score = 90 \<rparr>, \<lparr> Wallet = ''C'', Trading_Score = 80 \<rparr>]
   = [\<lparr> Wallet_Address = ''C'', composite_score = 80, last_seen = ''2026-11-03'', appearances = 1 \<rparr>,
      \<lparr> Wallet_Address = ''B'', composite_score = 70, last_seen = ''2026-10-20'', appearances = 1 \<rparr>,
      \<lparr> Wallet_Address = ''A'', composite_score = 62, last_seen = ''2026-11-03'', appearances = 3 \<rparr>,
      \<lparr> Wallet_Address = ''D'', composite_score = 60, last_seen = ''2026-10-13'', appearances = 4 \<rparr>]
   \<and> filter (untouched_by [\<lparr> Wallet = ''A'', Trading_Score = 90 \<rparr>,
                            \<lparr> Wallet = ''C'', Trading_Score = 80 \<rparr>])
     [\<lparr> Wallet_Address = ''B'', composite_score = 70, last_seen = ''2026-10-20'', appearances = 1 \<rparr>,
      \<lparr> Wallet_Address = ''A'', composite_score = 50, last_seen = ''2026-10-27'', appearances = 2 \<rparr>,
      \<lparr> Wallet_Address = ''D'', composite_score = 60, last_seen = ''2026-10-13'', appearances = 4 \<rparr>]
   = [\<lparr> Wallet_Address = ''B'', composite_score = 70, last_seen = ''2026-10-20'', appearances = 1 \<rparr>,
      \<lparr> Wallet_Address = ''D'', composite_score = 60, last_seen = ''2026-10-13'', appearances = 4 \<rparr>]"
  using update_scores_leaves_other_rows [where today = "''2026-11-03''"
      and historical_df =
        "[\<lparr> Wallet_Address = ''B'', composite_score = 70, last_seen = ''2026-10-20'',
            appearances = 1 \<rparr>,
          \<lparr> Wallet_Address = ''A'', composite_score = 50, last_seen = ''2026-10-27'',
            appearances = 2 \<rparr>,
          \<lparr> Wallet_Address = ''D'', composite_score = 60, last_seen = ''2026-10-13'',
            appearances = 4 \<rparr>]"
      and current_df = "[\<lparr> Wallet = ''A'', Trading_Score = 90 \<rparr>,
                         \<lparr> Wallet = ''C'', Trading_Score = 80 \<rparr>]"]
  by (simp add: ledger_defs)

end
